theory Spec2Isabelle
  imports Complex_Main "HOL-Library.Sublist" "HOL-Library.Monad_Syntax"
begin

section \<open>Python values used by the scanner\<close>

text \<open>
  The development embeds \<^verbatim>\<open>run_scan\<close> of \<^verbatim>\<open>UsebilityTesting/app.py\<close> and its
  nested helpers. A Python \<^verbatim>\<open>str\<close> is a \<open>string\<close>; a character stands for a code point
  below 256, so \<open>length\<close> is Python's \<^verbatim>\<open>len\<close> on such text. Python floats are
  idealised as reals (decimal literals are read exactly). An exception is represented
  by its text \<^verbatim>\<open>str(e)\<close>.
\<close>

type_synonym exn = string

definition isspace :: "char \<Rightarrow> bool" where
  \<comment> \<open>\<^verbatim>\<open>str.isspace\<close> and the regular expression class \<^verbatim>\<open>\s\<close> below code point 256\<close>
  "isspace c = (c \<in> set [CHR 0x09, CHR 0x0A, CHR 0x0B, CHR 0x0C, CHR 0x0D, CHR 0x1C,
                          CHR 0x1D, CHR 0x1E, CHR 0x1F, CHR 0x20, CHR 0x85, CHR 0xA0])"

definition isdigit :: "char \<Rightarrow> bool" where
  \<comment> \<open>the class \<^verbatim>\<open>\d\<close> (the only decimal digits below code point 256)\<close>
  "isdigit c = (c \<in> set ''0123456789'')"

definition strip :: "string \<Rightarrow> string" where
  "strip s = rev (dropWhile isspace (rev (dropWhile isspace s)))"

definition lower_char :: "char \<Rightarrow> char" where
  "lower_char c =
     (let n = (of_char c :: nat)
      in if (65 \<le> n \<and> n \<le> 90) \<or> (192 \<le> n \<and> n \<le> 222 \<and> n \<noteq> 215)
         then char_of (n + 32) else c)"

definition lower :: "string \<Rightarrow> string" where
  "lower s = map lower_char s"

definition truthy :: "string option \<Rightarrow> bool" where
  \<comment> \<open>truth value of a value that is \<^verbatim>\<open>None\<close> or a \<^verbatim>\<open>str\<close>\<close>
  "truthy v = (case v of None \<Rightarrow> False | Some s \<Rightarrow> s \<noteq> [])"

definition digit_val :: "char \<Rightarrow> nat" where
  "digit_val c = of_char c - 48"

definition digits_val :: "string \<Rightarrow> nat" where
  \<comment> \<open>\<^verbatim>\<open>int(x)\<close> on a string of decimal digits\<close>
  "digits_val s = foldl (\<lambda>n c. 10 * n + digit_val c) 0 s"

definition digit_char :: "nat \<Rightarrow> char" where
  "digit_char d = char_of (48 + d)"

fun str_nat :: "nat \<Rightarrow> string" where
  "str_nat n = (if n < 10 then [digit_char n] else str_nat (n div 10) @ [digit_char (n mod 10)])"

declare str_nat.simps [simp del]

definition str_int :: "int \<Rightarrow> string" where
  \<comment> \<open>\<^verbatim>\<open>str(i)\<close>, as an f-string renders an \<^verbatim>\<open>int\<close>\<close>
  "str_int i = (if i < 0 then CHR ''-'' # str_nat (nat (- i)) else str_nat (nat i))"

definition join_bar :: "string list \<Rightarrow> string" where
  \<comment> \<open>\<^verbatim>\<open>"|".join(xs)\<close>\<close>
  "join_bar xs = (case xs of [] \<Rightarrow> [] | y # ys \<Rightarrow> foldl (\<lambda>acc z. acc @ ''|'' @ z) y ys)"

definition basename :: "string \<Rightarrow> string" where
  \<comment> \<open>\<^verbatim>\<open>os.path.basename\<close>: what follows the last slash\<close>
  "basename p = rev (takeWhile (\<lambda>c. c \<noteq> CHR ''/'') (rev p))"

definition path_join :: "string \<Rightarrow> string \<Rightarrow> string" where
  \<comment> \<open>\<^verbatim>\<open>os.path.join(d, f)\<close> for a relative \<open>f\<close>\<close>
  "path_join d f = (if d = [] \<or> last d = CHR ''/'' then d @ f else d @ ''/'' @ f)"

definition py_float :: "string \<Rightarrow> real option" where
  \<comment> \<open>\<^verbatim>\<open>float(s)\<close> for \<open>s\<close> made of digits and dots only; \<open>None\<close> is \<^verbatim>\<open>ValueError\<close>\<close>
  "py_float s =
     (let ip = takeWhile isdigit s; r = dropWhile isdigit s
      in case r of
           [] \<Rightarrow> (if ip = [] then None else Some (real (digits_val ip)))
         | c # fp \<Rightarrow>
             (if c = CHR ''.'' \<and> list_all isdigit fp \<and> (ip \<noteq> [] \<or> fp \<noteq> [])
              then Some (real (digits_val ip) + real (digits_val fp) / 10 ^ length fp)
              else None))"

definition number_chars :: "string \<Rightarrow> string" where
  \<comment> \<open>\<^verbatim>\<open>re.sub(r'[^0-9.]+', '', s)\<close>\<close>
  "number_chars s = filter (\<lambda>c. isdigit c \<or> c = CHR ''.'') s"

definition ge_sign :: string where
  \<comment> \<open>the sign U+2265 of two messages, spelled as its UTF-8 bytes\<close>
  "ge_sign = [CHR 0xE2, CHR 0x89, CHR 0xA5]"

definition approx_sign :: string where
  \<comment> \<open>the sign U+2248 of one message, spelled as its UTF-8 bytes\<close>
  "approx_sign = [CHR 0xE2, CHR 0x89, CHR 0x88]"

record formats =
  fmt_2f :: "real \<Rightarrow> string"   \<comment> \<open>\<^verbatim>\<open>f"{x:.2f}"\<close>\<close>
  fmt_0f :: "real \<Rightarrow> string"   \<comment> \<open>\<^verbatim>\<open>f"{x:.0f}"\<close>\<close>
  fmt_repr :: "real \<Rightarrow> string" \<comment> \<open>\<^verbatim>\<open>f"{x}"\<close> of a float\<close>

section \<open>Colours and contrast\<close>

definition lit :: "string \<Rightarrow> string \<Rightarrow> string option" where
  \<comment> \<open>match a literal at the head of the input, returning the rest\<close>
  "lit p s = (if take (length p) s = p then Some (drop (length p) s) else None)"

definition digits1 :: "string \<Rightarrow> (string \<times> string) option" where
  \<comment> \<open>the group \<^verbatim>\<open>(\d+)\<close>: the longest run of digits, at least one\<close>
  "digits1 s = (let d = takeWhile isdigit s
                in if d = [] then None else Some (d, dropWhile isdigit s))"

definition spaces :: "string \<Rightarrow> string" where
  \<comment> \<open>\<^verbatim>\<open>\s*\<close>\<close>
  "spaces s = dropWhile isspace s"

definition rgb_match :: "string \<Rightarrow> (string \<times> string \<times> string) option" where
  \<comment> \<open>\<^verbatim>\<open>re.match(r"rgba?\((\d+)\s*,\s*(\d+)\s*,\s*(\d+)", s)\<close> and its three groups\<close>
  "rgb_match s =
     do {
       s1 \<leftarrow> lit ''rgb'' s;
       s2 \<leftarrow> Some (case lit ''a'' s1 of Some t \<Rightarrow> t | None \<Rightarrow> s1);
       s3 \<leftarrow> lit ''('' s2;
       (r, s4) \<leftarrow> digits1 s3;
       s5 \<leftarrow> lit '','' (spaces s4);
       (g, s6) \<leftarrow> digits1 (spaces s5);
       s7 \<leftarrow> lit '','' (spaces s6);
       (b, s8) \<leftarrow> digits1 (spaces s7);
       Some (r, g, b)
     }"

type_synonym rgb = "nat \<times> nat \<times> nat"

definition parse_rgb :: "string option \<Rightarrow> rgb" where
  "parse_rgb s =
     (if \<not> truthy s then (0, 0, 0)
      else case rgb_match (the s) of
             Some (r, g, b) \<Rightarrow> (digits_val r, digits_val g, digits_val b)
           | None \<Rightarrow> (0, 0, 0))"

definition channel :: "nat \<Rightarrow> real" where
  "channel c0 =
     (let c = real c0 / 255
      in if c \<le> 0.03928 then c / 12.92 else ((c + 0.055) / 1.055) powr 2.4)"

definition relative_luminance :: "rgb \<Rightarrow> real" where
  "relative_luminance c =
     (case c of (r, g, b) \<Rightarrow> 0.2126 * channel r + 0.7152 * channel g + 0.0722 * channel b)"

definition contrast_ratio :: "rgb \<Rightarrow> rgb \<Rightarrow> real" where
  "contrast_ratio fg bg =
     (let L1 = max (relative_luminance fg) (relative_luminance bg);
          L2 = min (relative_luminance fg) (relative_luminance bg)
      in (L1 + 0.05) / (L2 + 0.05))"

text \<open>
  The words of the specification for a parseable colour: \<^verbatim>\<open>rgb(\<close> or \<^verbatim>\<open>rgba(\<close>, then
  three decimal numbers separated by commas with optional white space around the commas.
\<close>

definition number_text :: "string \<Rightarrow> bool" where
  "number_text d = (d \<noteq> [] \<and> list_all isdigit d)"

definition blank_text :: "string \<Rightarrow> bool" where
  "blank_text w = list_all isspace w"

definition rgb_form :: "string \<Rightarrow> bool" where
  "rgb_form s =
     (\<exists>a r w1 w2 g w3 w4 b rest.
        s = ''rgb'' @ a @ ''('' @ r @ w1 @ '','' @ w2 @ g @ w3 @ '','' @ w4 @ b @ rest \<and>
        (a = [] \<or> a = ''a'') \<and> number_text r \<and> number_text g \<and> number_text b \<and>
        blank_text w1 \<and> blank_text w2 \<and> blank_text w3 \<and> blank_text w4)"

section \<open>Findings, effects and evidence capture\<close>

text \<open>
  A finding is the five-element list \<^verbatim>\<open>[name, link, description, severity, shot]\<close>
  that the scanner appends to \<^verbatim>\<open>issues\<close>; the severity is a Python string.
\<close>

record finding =
  rule_name :: string
  page_url :: string
  description :: string
  severity :: string
  evidence_ref :: "string option"

definition issue :: "string \<Rightarrow> string \<Rightarrow> string \<Rightarrow> string \<Rightarrow> string option \<Rightarrow> finding" where
  "issue name link desc sev shot =
     \<lparr>rule_name = name, page_url = link, description = desc, severity = sev,
      evidence_ref = shot\<rparr>"

record rect =
  r_left :: real
  r_top :: real
  r_width :: real
  r_height :: real
  r_label :: "string option"

text \<open>
  Until the loop over the URLs has ended, \<^verbatim>\<open>run_scan\<close> only appends to \<^verbatim>\<open>issues\<close>
  and \<^verbatim>\<open>page_screenshots\<close>, assigns \<^verbatim>\<open>title_map[link]\<close> and
  \<^verbatim>\<open>nav_signatures[link]\<close>, and writes screenshot files; it reads none of them back.
  A block of the function is therefore modelled by the effects it performs, in program
  order, together with the exception that ends it, if one does.
\<close>

datatype effect =
    Issue finding                   \<comment> \<open>\<^verbatim>\<open>issues.append(...)\<close>\<close>
  | Screenshot string "rect list"   \<comment> \<open>a file written by \<^verbatim>\<open>driver.save_screenshot\<close>, and the boxes injected for it\<close>
  | PageShot string string          \<comment> \<open>\<^verbatim>\<open>page_screenshots.append((link, name))\<close>\<close>
  | SetTitle string string          \<comment> \<open>\<^verbatim>\<open>title_map[link] = title\<close>\<close>
  | SetNav string string            \<comment> \<open>\<^verbatim>\<open>nav_signatures[link] = signature\<close>\<close>

type_synonym step = "effect list \<times> exn option"

definition ok :: "effect list \<Rightarrow> step" where
  "ok es = (es, None)"

definition raise :: "exn \<Rightarrow> step" where
  "raise e = ([], Some e)"

definition seq :: "step \<Rightarrow> step \<Rightarrow> step" where
  \<comment> \<open>statement sequencing: what follows a raised exception is not run\<close>
  "seq a b = (case snd a of Some e \<Rightarrow> a | None \<Rightarrow> (fst a @ fst b, snd b))"

definition seqs :: "step list \<Rightarrow> step" where
  "seqs ss = foldr seq ss (ok [])"

definition script :: "exn + 'a \<Rightarrow> ('a \<Rightarrow> step) \<Rightarrow> step" where
  \<comment> \<open>an unguarded call into the browser: its exception ends the block\<close>
  "script r k = (case r of Inl e \<Rightarrow> raise e | Inr v \<Rightarrow> k v)"

definition fire :: "string \<times> effect list \<Rightarrow> (string \<Rightarrow> finding) \<Rightarrow> step" where
  \<comment> \<open>\<^verbatim>\<open>shot = capture_rule_screenshot(...); issues.append([..., shot])\<close>\<close>
  "fire cap mk = ok (snd cap @ [Issue (mk (fst cap))])"

definition rect_list :: "rect option \<Rightarrow> rect list" where
  \<comment> \<open>\<^verbatim>\<open>[r] if r else []\<close>\<close>
  "rect_list r = (case r of None \<Rightarrow> [] | Some x \<Rightarrow> [x])"

record capture_env =
  overlay_raises :: bool   \<comment> \<open>the overlay injection script raises\<close>
  uuid_hex :: string       \<comment> \<open>\<^verbatim>\<open>uuid.uuid4().hex\<close>\<close>
  save_raises :: bool      \<comment> \<open>\<^verbatim>\<open>driver.save_screenshot\<close> raises\<close>

definition capture_rule_screenshot ::
  "string \<Rightarrow> capture_env \<Rightarrow> rect list \<Rightarrow> string \<Rightarrow> string option \<Rightarrow> string \<times> effect list" where
  "capture_rule_screenshot screenshots_dir ce rects rule_key label_text =
     (let rects1 = (if rects = [] \<and> truthy label_text
                    then [\<lparr>r_left = 10, r_top = 10, r_width = 300, r_height = 30,
                           r_label = label_text\<rparr>]
                    else rects);
          rects2 = (if truthy label_text then map (\<lambda>r. r\<lparr>r_label := label_text\<rparr>) rects1
                    else rects1);
          fname = ''screenshot_'' @ uuid_hex ce @ ''_'' @ rule_key @ ''.png'';
          fpath = path_join screenshots_dir fname
      in (fname,
          if save_raises ce then []
          else [Screenshot fpath (if overlay_raises ce then [] else rects2)]))"

section \<open>What the browser and the network answer\<close>

record style_item =
  st_text :: string
  st_color :: "string option"
  st_bg :: "string option"
  st_fontSize :: "string option"
  st_lineHeight :: "string option"
  st_left :: real
  st_top :: real
  st_width :: real
  st_height :: real

record img =
  im_alt :: "string option"
  im_src :: "string option"
  im_fetch :: "exn + string \<times> int"      \<comment> \<open>\<^verbatim>\<open>urljoin\<close>, \<^verbatim>\<open>urlopen\<close>: the absolute URL and the status, or an exception\<close>
  im_locate_try :: "exn + rect option"    \<comment> \<open>the locating script run inside the \<^verbatim>\<open>try\<close>\<close>
  im_cap_http :: capture_env
  im_locate_exc :: "exn + rect option"    \<comment> \<open>the locating script run inside the \<^verbatim>\<open>except\<close>\<close>
  im_cap_fail :: capture_env

record anchor =
  a_href :: "string option"
  a_text :: string
  a_locate_bad :: "exn + rect option"
  a_cap_bad :: capture_env
  a_locate_text :: "exn + rect option"
  a_cap_text :: capture_env
  a_fetch :: "exn + string \<times> int"
  a_locate_try :: "exn + rect option"
  a_cap_http :: capture_env
  a_locate_exc :: "exn + rect option"
  a_cap_fail :: capture_env

record form_input =
  fi_id :: "string option"
  fi_label_for :: bool                    \<comment> \<open>\<^verbatim>\<open>soup.find('label', attrs={'for': id_})\<close> finds one\<close>
  fi_in_label :: bool                     \<comment> \<open>\<^verbatim>\<open>inp.find_parent('label')\<close> finds one\<close>
  fi_locate :: "exn + rect"               \<comment> \<open>\<^verbatim>\<open>driver.find_element\<close> and the rectangle script\<close>
  fi_by_id :: "exn + rect option"
  fi_cap :: capture_env

record soup =
  sp_title :: "string option option"      \<comment> \<open>\<^verbatim>\<open>soup.title\<close>, and its \<^verbatim>\<open>.string\<close>\<close>
  sp_levels :: "int list"                 \<comment> \<open>\<^verbatim>\<open>int(h.name[1])\<close> of the headings, in document order\<close>
  sp_imgs :: "img list"
  sp_viewport_meta :: bool
  sp_anchors :: "anchor list"
  sp_forms :: "form_input list list"      \<comment> \<open>per form, its input, select and textarea elements\<close>
  sp_nav_links :: "string list"           \<comment> \<open>stripped text of each \<^verbatim>\<open>nav a\<close>\<close>
  sp_role_alert :: bool
  sp_aria_live :: bool

record kb_result =
  tabbables :: int
  blocked :: int

record page_env =
  pe_get :: "exn option"                  \<comment> \<open>\<^verbatim>\<open>driver.get(link)\<close> raises\<close>
  pe_page_uuid :: string
  pe_page_save_raises :: bool
  pe_soup :: "exn + soup"                 \<comment> \<open>\<^verbatim>\<open>BeautifulSoup(driver.page_source, ...)\<close>\<close>
  pe_style :: "exn + style_item list"     \<comment> \<open>the computed-style script, \<^verbatim>\<open>or []\<close>\<close>
  pe_cap_title :: capture_env
  pe_cap_missing_h1 :: capture_env
  pe_mh :: "exn + rect list"
  pe_cap_multiple_h1 :: capture_env
  pe_hs :: "exn + rect option"
  pe_cap_skip :: capture_env
  pe_alt :: "exn + rect option"
  pe_cap_alt :: capture_env
  pe_mq :: "exn + int option"             \<comment> \<open>the media-query count; \<open>None\<close> when it is not an \<^verbatim>\<open>int\<close>\<close>
  pe_cap_viewport :: capture_env
  pe_cap_mq :: capture_env
  pe_cap_contrast :: capture_env
  pe_kb :: "exn + kb_result option"
  pe_cap_keyboard :: capture_env
  pe_blocked :: "exn + rect list"
  pe_cap_tab :: capture_env
  pe_cap_feedback :: capture_env
  pe_cap_small :: capture_env
  pe_cap_line :: capture_env
  pe_perf :: "exn + real option"          \<comment> \<open>the timing script and \<^verbatim>\<open>float(perf.get('duration', 0.0))\<close>\<close>
  pe_cap_perf :: capture_env

record world =
  chrome_raises :: "exn option"           \<comment> \<open>\<^verbatim>\<open>webdriver.Chrome(options=options)\<close> raises\<close>
  quit_raises :: "exn option"             \<comment> \<open>\<^verbatim>\<open>driver.quit()\<close> raises\<close>
  slot :: "string \<Rightarrow> nat"                 \<comment> \<open>the hash-table position that orders the iteration of a \<^verbatim>\<open>set\<close>\<close>
  fmt :: formats

section \<open>The rules of one page visit\<close>

subsection \<open>1) Page title\<close>

definition page_title :: "soup \<Rightarrow> string" where
  \<comment> \<open>\<^verbatim>\<open>soup.title.string.strip() if soup.title and soup.title.string else ""\<close>\<close>
  "page_title sp =
     (case sp_title sp of
        Some (Some s) \<Rightarrow> (if s \<noteq> [] then strip s else [])
      | _ \<Rightarrow> [])"

definition rule_title :: "string \<Rightarrow> string \<Rightarrow> page_env \<Rightarrow> soup \<Rightarrow> step" where
  "rule_title dir link pe sp =
     (let title = page_title sp
      in seq (if title = [] \<or> length title < 5
              then fire (capture_rule_screenshot dir (pe_cap_title pe) [] ''title'' (Some ''Page title''))
                     (\<lambda>shot. issue ''Page title not descriptive'' link
                        ''Provide a unique, descriptive <title> of at least 5 characters.''
                        ''High'' (Some shot))
              else ok [])
             (ok [SetTitle link title]))"

subsection \<open>2) Headings\<close>

fun heading_skips :: "string \<Rightarrow> string \<Rightarrow> page_env \<Rightarrow> (int \<times> int) list \<Rightarrow> step" where
  "heading_skips dir link pe [] = ok []"
| "heading_skips dir link pe ((prev, cur) # ps) =
     (if cur - prev > 1
      then script (pe_hs pe) (\<lambda>hs_rect.
             fire (capture_rule_screenshot dir (pe_cap_skip pe) (rect_list hs_rect) ''headings''
                     (Some ''Heading skip''))
               (\<lambda>shot. issue ''Heading level skips'' link
                  ''Use hierarchical headings without skipping levels (e.g., h2 then h3).''
                  ''Low'' (Some shot)))
      else heading_skips dir link pe ps)"

definition rule_headings :: "string \<Rightarrow> string \<Rightarrow> page_env \<Rightarrow> soup \<Rightarrow> step" where
  "rule_headings dir link pe sp =
     (let levels = sp_levels sp
      in seq (if \<not> list_ex (\<lambda>l. l = 1) levels
              then fire (capture_rule_screenshot dir (pe_cap_missing_h1 pe) [] ''headings''
                           (Some ''Missing H1''))
                     (\<lambda>shot. issue ''Missing H1 heading'' link
                        ''Include a single, clear <h1> per page.'' ''Medium'' (Some shot))
              else ok [])
        (seq (if count_list levels 1 > 1
              then script (pe_mh pe) (\<lambda>mh.
                     fire (capture_rule_screenshot dir (pe_cap_multiple_h1 pe) mh ''headings''
                             (Some ''Multiple H1''))
                       (\<lambda>shot. issue ''Multiple H1 headings'' link
                          ''Use only one <h1> to anchor page structure.'' ''Low'' (Some shot)))
              else ok [])
             (heading_skips dir link pe (zip levels (tl levels)))))"

subsection \<open>3) Alternative text\<close>

definition alt_bad :: "img \<Rightarrow> bool" where
  "alt_bad im =
     (let alt = im_alt im;
          src = (if truthy (im_src im) then the (im_src im) else []);
          fname = basename src
      in \<not> truthy alt \<or> length (strip (the alt)) < 3 \<or>
         lower (strip (the alt)) \<in> set [''image'', ''photo'', ''picture''] \<or>
         lower (strip (the alt)) = lower fname)"

fun alt_loop :: "string \<Rightarrow> string \<Rightarrow> page_env \<Rightarrow> img list \<Rightarrow> step" where
  "alt_loop dir link pe [] = ok []"
| "alt_loop dir link pe (im # ims) =
     (if alt_bad im
      then script (pe_alt pe) (\<lambda>bad_img_rect.
             fire (capture_rule_screenshot dir (pe_cap_alt pe) (rect_list bad_img_rect) ''alt''
                     (Some ''Alt missing''))
               (\<lambda>shot. issue ''Image alt text not meaningful'' link
                  (''Provide descriptive alt text ('' @ ge_sign @ ''3 chars, not generic or filename).'')
                  ''High'' (Some shot)))
      else alt_loop dir link pe ims)"

subsection \<open>4) Mobile responsiveness\<close>

definition rule_responsive :: "string \<Rightarrow> string \<Rightarrow> page_env \<Rightarrow> soup \<Rightarrow> step" where
  "rule_responsive dir link pe sp =
     script (pe_mq pe) (\<lambda>mq_count.
       seq (if \<not> sp_viewport_meta sp
            then fire (capture_rule_screenshot dir (pe_cap_viewport pe) [] ''viewport''
                         (Some ''Viewport meta missing''))
                   (\<lambda>shot. issue ''Missing viewport meta'' link
                      (''Add <meta name='' @ [CHR 0x27] @ ''viewport'' @ [CHR 0x27] @ '' content=''
                       @ [CHR 0x27] @ ''width=device-width, initial-scale=1.0'' @ [CHR 0x27] @ ''>.'')
                      ''Medium'' (Some shot))
            else ok [])
           (if mq_count = Some 0
            then fire (capture_rule_screenshot dir (pe_cap_mq pe) [] ''viewport''
                         (Some ''No media queries''))
                   (\<lambda>shot. issue ''No responsive media queries'' link
                      ''Add CSS media queries to adapt layout across devices.'' ''Low'' (Some shot))
            else ok []))"

subsection \<open>5) Link integrity and broken links\<close>

definition href_empty :: "anchor \<Rightarrow> bool" where
  \<comment> \<open>\<^verbatim>\<open>not href or href in {"#", "", "javascript:void(0)"}\<close>\<close>
  "href_empty a = (\<not> truthy (a_href a) \<or> the (a_href a) \<in> set [''#'', [], ''javascript:void(0)''])"

definition link_text_check :: "string \<Rightarrow> string \<Rightarrow> anchor \<Rightarrow> step" where
  \<comment> \<open>the whole block sits in \<^verbatim>\<open>try: ... except Exception: pass\<close>\<close>
  "link_text_check dir link a =
     (let text = strip (a_text a)
      in if text \<noteq> [] \<and>
            lower text \<in> set [''click here'', ''here'', ''read more'', ''learn more'', ''more'']
         then (case a_locate_text a of
                 Inl e \<Rightarrow> ok []
               | Inr desc_rect \<Rightarrow>
                   fire (capture_rule_screenshot dir (a_cap_text a) (rect_list desc_rect) ''links''
                           (Some ''Link text''))
                     (\<lambda>shot. issue ''Link text not descriptive'' link
                        (''Use descriptive link text instead of '' @ [CHR 0x27] @ text @ [CHR 0x27] @ ''.'')
                        ''Low'' (Some shot)))
         else ok [])"

definition failed_to_open :: "string \<Rightarrow> string \<Rightarrow> anchor \<Rightarrow> step" where
  \<comment> \<open>the \<^verbatim>\<open>except Exception:\<close> branch of the liveness check\<close>
  "failed_to_open dir link a =
     script (a_locate_exc a) (\<lambda>a_rect.
       fire (capture_rule_screenshot dir (a_cap_fail a) (rect_list a_rect) ''links''
               (Some ''Broken link''))
         (\<lambda>shot. issue ''Broken link detected'' link (''Failed to open: '' @ the (a_href a))
            ''High'' (Some shot)))"

fun anchors_loop :: "string \<Rightarrow> string \<Rightarrow> anchor list \<Rightarrow> step" where
  "anchors_loop dir link [] = ok []"
| "anchors_loop dir link (a # as) =
     (if href_empty a
      then script (a_locate_bad a) (\<lambda>bad_a_rect.
             fire (capture_rule_screenshot dir (a_cap_bad a) (rect_list bad_a_rect) ''links''
                     (Some ''Broken link''))
               (\<lambda>shot. issue ''Empty or broken link'' link
                  ''Provide valid href and meaningful link text.'' ''Medium'' (Some shot)))
      else seq (link_text_check dir link a)
             (case a_fetch a of
                Inr (abs_url, status) \<Rightarrow>
                  if status \<ge> 400
                  then (case a_locate_try a of
                          Inr a_rect \<Rightarrow>
                            fire (capture_rule_screenshot dir (a_cap_http a) (rect_list a_rect)
                                    ''links'' (Some ''Broken link''))
                              (\<lambda>shot. issue ''Broken link detected'' link
                                 (''Link returns HTTP '' @ str_int status @ '': '' @ abs_url)
                                 ''High'' (Some shot))
                        | Inl e \<Rightarrow> failed_to_open dir link a)
                  else anchors_loop dir link as
              | Inl e \<Rightarrow> failed_to_open dir link a))"

subsection \<open>6) Colour contrast\<close>

fun contrast_loop ::
  "formats \<Rightarrow> style_item list \<Rightarrow> rect list \<Rightarrow> string option \<Rightarrow> rect list \<times> string option" where
  "contrast_loop F [] contrast_rects first_ratio_desc = (contrast_rects, first_ratio_desc)"
| "contrast_loop F (item # items) contrast_rects first_ratio_desc =
     (let fg = parse_rgb (st_color item);
          bg = parse_rgb (st_bg item);
          ratio = contrast_ratio fg bg
      in if ratio < 4.5
         then (let first' = (case first_ratio_desc of
                               None \<Rightarrow> Some (''Contrast '' @ fmt_2f F ratio @ '':1 below 4.5:1 for text ''
                                              @ [CHR 0x27] @ st_text item @ [CHR 0x27] @ ''.'')
                             | Some d \<Rightarrow> Some d);
                   rects' = contrast_rects @
                      [\<lparr>r_left = st_left item, r_top = st_top item, r_width = st_width item,
                        r_height = st_height item,
                        r_label = Some (''Contrast '' @ fmt_2f F ratio @ '':1'')\<rparr>]
               in if length rects' \<ge> 3 then (rects', first')
                  else contrast_loop F items rects' first')
         else contrast_loop F items contrast_rects first_ratio_desc)"

definition rule_contrast :: "string \<Rightarrow> formats \<Rightarrow> string \<Rightarrow> page_env \<Rightarrow> style_item list \<Rightarrow> step" where
  "rule_contrast dir F link pe style_results =
     (case contrast_loop F style_results [] None of
        (contrast_rects, first_ratio_desc) \<Rightarrow>
          if contrast_rects \<noteq> []
          then fire (capture_rule_screenshot dir (pe_cap_contrast pe) contrast_rects ''contrast'' None)
                 (\<lambda>shot. issue ''Insufficient colour contrast'' link
                    (if truthy first_ratio_desc then the first_ratio_desc
                     else ''Insufficient colour contrast detected.'')
                    ''High'' (Some shot))
          else ok [])"

subsection \<open>7) Keyboard navigation\<close>

definition rule_keyboard :: "string \<Rightarrow> string \<Rightarrow> page_env \<Rightarrow> step" where
  "rule_keyboard dir link pe =
     script (pe_kb pe) (\<lambda>kb.
       seq (if kb \<noteq> None \<and> tabbables (the kb) = 0
            then fire (capture_rule_screenshot dir (pe_cap_keyboard pe) [] ''keyboard''
                         (Some ''Keyboard nav''))
                   (\<lambda>shot. issue ''Keyboard navigation inaccessible'' link
                      ''Ensure interactive elements are reachable via keyboard (Tab).''
                      ''High'' (Some shot))
            else ok [])
           (if kb \<noteq> None \<and> blocked (the kb) > 0
            then script (pe_blocked pe) (\<lambda>blocked_rects.
                   fire (capture_rule_screenshot dir (pe_cap_tab pe) blocked_rects ''keyboard''
                           (Some ''Tab order''))
                     (\<lambda>shot. issue ''Elements removed from tab order'' link
                        (''Avoid tabindex='' @ [CHR 0x27] @ ''-1'' @ [CHR 0x27]
                         @ '' unless necessary; keep natural focus order.'')
                        ''Low'' (Some shot)))
            else ok []))"

subsection \<open>8) Form usability\<close>

definition has_label :: "form_input \<Rightarrow> bool" where
  "has_label inp = ((truthy (fi_id inp) \<and> fi_label_for inp) \<or> fi_in_label inp)"

fun inputs_loop :: "string \<Rightarrow> string \<Rightarrow> form_input list \<Rightarrow> step" where
  "inputs_loop dir link [] = ok []"
| "inputs_loop dir link (inp # inps) =
     (if \<not> has_label inp
      then script (fi_locate inp) (\<lambda>rect0.
             let rect = (if truthy (fi_id inp)
                         then (case fi_by_id inp of Inl e \<Rightarrow> None | Inr r \<Rightarrow> r)
                         else Some rect0)
             in fire (capture_rule_screenshot dir (fi_cap inp) (rect_list rect) ''forms''
                        (Some ''Missing label''))
                  (\<lambda>shot. issue ''Form field missing label'' link
                     (''Associate inputs with visible labels using <label for='' @ [CHR 0x27] @ ''id''
                      @ [CHR 0x27] @ ''>.'')
                     ''Medium'' (Some shot)))
      else inputs_loop dir link inps)"

fun forms_loop :: "string \<Rightarrow> string \<Rightarrow> form_input list list \<Rightarrow> step" where
  "forms_loop dir link [] = ok []"
| "forms_loop dir link (form # forms) = seq (inputs_loop dir link form) (forms_loop dir link forms)"

subsection \<open>9) Navigation signature and 10) feedback hooks\<close>

definition nav_signature :: "soup \<Rightarrow> string" where
  "nav_signature sp =
     (let nav_links = take 10 (sp_nav_links sp)
      in if nav_links \<noteq> [] then join_bar nav_links else [])"

definition rule_nav :: "string \<Rightarrow> soup \<Rightarrow> step" where
  "rule_nav link sp = ok [SetNav link (nav_signature sp)]"

definition rule_feedback :: "string \<Rightarrow> string \<Rightarrow> page_env \<Rightarrow> soup \<Rightarrow> step" where
  "rule_feedback dir link pe sp =
     (if \<not> (sp_role_alert sp \<or> sp_aria_live sp)
      then fire (capture_rule_screenshot dir (pe_cap_feedback pe) [] ''feedback''
                   (Some ''Missing feedback''))
             (\<lambda>shot. issue ''Missing user feedback hooks'' link
                (''Provide clear feedback areas (role='' @ [CHR 0x27] @ ''alert'' @ [CHR 0x27]
                 @ '' or aria-live) for system actions/errors.'')
                ''Low'' (Some shot))
      else ok [])"

subsection \<open>11) Readability\<close>

definition font_size :: "style_item \<Rightarrow> real" where
  \<comment> \<open>\<^verbatim>\<open>float(re.sub(r'[^0-9.]+','', item.get('fontSize','12')))\<close>, or 12.0 on any exception\<close>
  "font_size item =
     (case py_float (number_chars (case st_fontSize item of None \<Rightarrow> ''12'' | Some s \<Rightarrow> s)) of
        None \<Rightarrow> 12
      | Some v \<Rightarrow> v)"

definition line_height :: "style_item \<Rightarrow> real \<Rightarrow> real" where
  \<comment> \<open>\<^verbatim>\<open>float(re.sub(r'[^0-9.]+','', lh_raw))\<close>, or \<^verbatim>\<open>fs * 1.2\<close> on any exception\<close>
  "line_height item fs =
     (case py_float (number_chars (case st_lineHeight item of None \<Rightarrow> ''normal'' | Some s \<Rightarrow> s)) of
        None \<Rightarrow> fs * 1.2
      | Some v \<Rightarrow> v)"

definition tight_condition :: "real \<Rightarrow> real \<Rightarrow> bool" where
  \<comment> \<open>\<^verbatim>\<open>(lh/fs) if fs>0 else 1.0 < 1.2\<close>: Python reads the conditional expression as
      \<^verbatim>\<open>(lh/fs) if fs>0 else (1.0 < 1.2)\<close>, and the \<^verbatim>\<open>if\<close> statement takes its truth value\<close>
  "tight_condition lh fs = (if fs > 0 then lh / fs \<noteq> 0 else (1.0 < (1.2 :: real)))"

definition item_rect :: "style_item \<Rightarrow> string \<Rightarrow> rect" where
  "item_rect item label =
     \<lparr>r_left = st_left item, r_top = st_top item, r_width = st_width item,
      r_height = st_height item, r_label = Some label\<rparr>"

fun readability_loop :: "string \<Rightarrow> formats \<Rightarrow> string \<Rightarrow> page_env \<Rightarrow> style_item list \<Rightarrow> step" where
  "readability_loop dir F link pe [] = ok []"
| "readability_loop dir F link pe (item # items) =
     (let fs = font_size item;
          lh = line_height item fs
      in if fs < 12
         then fire (capture_rule_screenshot dir (pe_cap_small pe) [item_rect item ''Small font'']
                      ''readability'' (Some ''Small font''))
                (\<lambda>shot. issue ''Small font size'' link
                   (''Increase font size to '' @ ge_sign @ '' 12px. Found '' @ fmt_repr F fs @ ''px.'')
                   ''Low'' (Some shot))
         else if tight_condition lh fs
         then fire (capture_rule_screenshot dir (pe_cap_line pe) [item_rect item ''Line-height'']
                      ''readability'' (Some ''Line-height''))
                (\<lambda>shot. issue ''Tight line spacing'' link
                   (''Use line-height '' @ approx_sign @ '' 1.4 for comfortable reading.'')
                   ''Low'' (Some shot))
         else readability_loop dir F link pe items)"

subsection \<open>12) Performance and 13) broken images\<close>

definition rule_performance :: "string \<Rightarrow> formats \<Rightarrow> string \<Rightarrow> page_env \<Rightarrow> step" where
  "rule_performance dir F link pe =
     script (pe_perf pe) (\<lambda>perf.
       let dur = (case perf of None \<Rightarrow> 0 | Some d \<Rightarrow> d)
       in if dur > 3000
          then fire (capture_rule_screenshot dir (pe_cap_perf pe) [] ''performance''
                       (Some ''Slow page''))
                 (\<lambda>shot. issue ''Slow page performance'' link
                    (''Navigation duration '' @ fmt_0f F dur @ ''ms; optimize assets and requests.'')
                    ''Medium'' (Some shot))
          else ok [])"

definition failed_to_load :: "string \<Rightarrow> string \<Rightarrow> img \<Rightarrow> step" where
  "failed_to_load dir link im =
     script (im_locate_exc im) (\<lambda>img_rect.
       fire (capture_rule_screenshot dir (im_cap_fail im) (rect_list img_rect) ''images''
               (Some ''Broken image''))
         (\<lambda>shot. issue ''Broken image source'' link (''Failed to load image: '' @ the (im_src im))
            ''Low'' (Some shot)))"

fun images_loop :: "string \<Rightarrow> string \<Rightarrow> img list \<Rightarrow> step" where
  "images_loop dir link [] = ok []"
| "images_loop dir link (im # ims) =
     (if \<not> truthy (im_src im) then images_loop dir link ims
      else (case im_fetch im of
              Inr (abs_img, status) \<Rightarrow>
                if status \<ge> 400
                then (case im_locate_try im of
                        Inr img_rect \<Rightarrow>
                          fire (capture_rule_screenshot dir (im_cap_http im) (rect_list img_rect)
                                  ''images'' (Some ''Broken image''))
                            (\<lambda>shot. issue ''Broken image source'' link
                               (''Image returns HTTP '' @ str_int status @ '': '' @ abs_img)
                               ''Low'' (Some shot))
                      | Inl e \<Rightarrow> failed_to_load dir link im)
                else images_loop dir link ims
            | Inl e \<Rightarrow> failed_to_load dir link im))"

section \<open>One page visit and the loop over the URLs\<close>

definition page_screenshot :: "string \<Rightarrow> string \<Rightarrow> page_env \<Rightarrow> step" where
  \<comment> \<open>the page-level screenshot: recorded only when the file was saved\<close>
  "page_screenshot dir link pe =
     (let page_shot_name = ''screenshot_'' @ pe_page_uuid pe @ ''_page.png'';
          page_shot_path = path_join dir page_shot_name
      in if pe_page_save_raises pe then ok []
         else ok [Screenshot page_shot_path [], PageShot link page_shot_name])"

definition later_steps ::
  "string \<Rightarrow> formats \<Rightarrow> string \<Rightarrow> page_env \<Rightarrow> soup \<Rightarrow> style_item list \<Rightarrow> step list" where
  \<comment> \<open>rules 2 to 13, in program order\<close>
  "later_steps dir F link pe sp style_results =
     [rule_headings dir link pe sp,
      alt_loop dir link pe (sp_imgs sp),
      rule_responsive dir link pe sp,
      anchors_loop dir link (sp_anchors sp),
      rule_contrast dir F link pe style_results,
      rule_keyboard dir link pe,
      forms_loop dir link (sp_forms sp),
      rule_nav link sp,
      rule_feedback dir link pe sp,
      readability_loop dir F link pe style_results,
      rule_performance dir F link pe,
      images_loop dir link (sp_imgs sp)]"

definition page_rules ::
  "string \<Rightarrow> formats \<Rightarrow> string \<Rightarrow> page_env \<Rightarrow> soup \<Rightarrow> style_item list \<Rightarrow> step" where
  "page_rules dir F link pe sp style_results =
     seqs (rule_title dir link pe sp # later_steps dir F link pe sp style_results)"

definition page_body :: "string \<Rightarrow> formats \<Rightarrow> string \<Rightarrow> page_env \<Rightarrow> step" where
  \<comment> \<open>the body of the \<^verbatim>\<open>try\<close> of one iteration\<close>
  "page_body dir F link pe =
     (case pe_get pe of
        Some e \<Rightarrow> raise e
      | None \<Rightarrow>
          seq (page_screenshot dir link pe)
            (script (pe_soup pe) (\<lambda>sp.
               script (pe_style pe) (\<lambda>style_results.
                 page_rules dir F link pe sp style_results))))"

definition scan_page :: "string \<Rightarrow> formats \<Rightarrow> string \<Rightarrow> page_env \<Rightarrow> effect list" where
  \<comment> \<open>one iteration: the body, and \<^verbatim>\<open>except Exception as e\<close>\<close>
  "scan_page dir F link pe =
     (case page_body dir F link pe of
        (es, None) \<Rightarrow> es
      | (es, Some e) \<Rightarrow> es @ [Issue (issue ''Page load error'' link e ''High'' None)])"

fun scan_loop :: "string \<Rightarrow> formats \<Rightarrow> (string \<times> page_env) list \<Rightarrow> effect list" where
  "scan_loop dir F [] = []"
| "scan_loop dir F ((link, pe) # visits) = scan_page dir F link pe @ scan_loop dir F visits"

section \<open>The state after the loop, and the cross-page checks\<close>

fun dict_set :: "'k \<Rightarrow> 'v \<Rightarrow> ('k \<times> 'v) list \<Rightarrow> ('k \<times> 'v) list" where
  \<comment> \<open>\<^verbatim>\<open>d[k] = v\<close> on an insertion-ordered \<^verbatim>\<open>dict\<close>\<close>
  "dict_set k v [] = [(k, v)]"
| "dict_set k v ((k', v') # d) = (if k' = k then (k, v) # d else (k', v') # dict_set k v d)"

fun issue_of :: "effect \<Rightarrow> finding list" where
  "issue_of (Issue f) = [f]"
| "issue_of _ = []"

fun file_of :: "effect \<Rightarrow> string list" where
  "file_of (Screenshot path rects) = [path]"
| "file_of _ = []"

fun page_shot_of :: "effect \<Rightarrow> (string \<times> string) list" where
  "page_shot_of (PageShot link name) = [(link, name)]"
| "page_shot_of _ = []"

fun set_title :: "(string \<times> string) list \<Rightarrow> effect \<Rightarrow> (string \<times> string) list" where
  "set_title d (SetTitle link title) = dict_set link title d"
| "set_title d _ = d"

fun set_nav :: "(string \<times> string) list \<Rightarrow> effect \<Rightarrow> (string \<times> string) list" where
  "set_nav d (SetNav link sig) = dict_set link sig d"
| "set_nav d _ = d"

definition issues_of :: "effect list \<Rightarrow> finding list" where
  "issues_of es = concat (map issue_of es)"

definition files_of :: "effect list \<Rightarrow> string list" where
  "files_of es = concat (map file_of es)"

definition page_screenshots_of :: "effect list \<Rightarrow> (string \<times> string) list" where
  "page_screenshots_of es = concat (map page_shot_of es)"

definition title_map_of :: "effect list \<Rightarrow> (string \<times> string) list" where
  "title_map_of es = foldl set_title [] es"

definition nav_signatures_of :: "effect list \<Rightarrow> (string \<times> string) list" where
  "nav_signatures_of es = foldl set_nav [] es"

definition duplicate_titles :: "(string \<times> string) list \<Rightarrow> finding list" where
  "duplicate_titles title_map =
     (if length title_map > 1
      then (let titles = map snd title_map;
                dup_titles = filter (\<lambda>t. t \<noteq> [] \<and> count_list titles t > 1) titles
            in concat (map (\<lambda>(page, t).
                   if t \<in> set dup_titles
                   then [issue ''Non-unique page title'' page
                           ''Each page should have a unique, descriptive title.'' ''Medium'' None]
                   else []) title_map))
      else [])"

definition set_iteration :: "(string \<Rightarrow> nat) \<Rightarrow> string list \<Rightarrow> string list" where
  \<comment> \<open>the order in which \<^verbatim>\<open>set(xs)\<close> is iterated: by hash-table position, not by first appearance\<close>
  "set_iteration pos xs = sort_key pos (remdups xs)"

definition py_max :: "('a \<Rightarrow> nat) \<Rightarrow> 'a \<Rightarrow> 'a list \<Rightarrow> 'a" where
  \<comment> \<open>\<^verbatim>\<open>max(..., key=key)\<close> over a first element and the rest: the first maximal element wins\<close>
  "py_max key x xs = foldl (\<lambda>m y. if key m < key y then y else m) x xs"

definition majority_signature :: "(string \<Rightarrow> nat) \<Rightarrow> string list \<Rightarrow> string" where
  \<comment> \<open>\<^verbatim>\<open>max(set(sigs), key=sigs.count) if sigs else ""\<close>\<close>
  "majority_signature pos sigs =
     (case set_iteration pos sigs of [] \<Rightarrow> [] | x # xs \<Rightarrow> py_max (count_list sigs) x xs)"

definition inconsistent_navigation :: "(string \<Rightarrow> nat) \<Rightarrow> (string \<times> string) list \<Rightarrow> finding list" where
  "inconsistent_navigation pos nav_signatures =
     (if length nav_signatures > 1
      then (let sigs = map snd nav_signatures;
                majority = majority_signature pos sigs
            in concat (map (\<lambda>(page, sig).
                   if sig \<noteq> [] \<and> majority \<noteq> [] \<and> sig \<noteq> majority
                   then [issue ''Inconsistent navigation'' page
                           ''Use a uniform navigation structure across pages.'' ''Low'' None]
                   else []) nav_signatures))
      else [])"

definition run_scan ::
  "world \<Rightarrow> (string \<times> page_env) list \<Rightarrow> string \<Rightarrow> exn + finding list \<times> (string \<times> string) list" where
  \<comment> \<open>\<^verbatim>\<open>run_scan(urls, screenshots_dir)\<close>: each URL comes with what its visit observes\<close>
  "run_scan w visits screenshots_dir =
     (case chrome_raises w of
        Some e \<Rightarrow> Inl e
      | None \<Rightarrow>
          (let es = scan_loop screenshots_dir (fmt w) visits;
               issues = issues_of es @ duplicate_titles (title_map_of es)
                          @ inconsistent_navigation (slot w) (nav_signatures_of es)
           in case quit_raises w of
                Some e \<Rightarrow> Inl e
              | None \<Rightarrow> Inr (issues, page_screenshots_of es)))"

section \<open>Vocabulary of the properties\<close>

definition later_rules :: "(string \<times> string) list" where
  \<comment> \<open>rule name and severity of every finding that rules 2 to 13 can append\<close>
  "later_rules =
     [(''Missing H1 heading'', ''Medium''), (''Multiple H1 headings'', ''Low''),
      (''Heading level skips'', ''Low''), (''Image alt text not meaningful'', ''High''),
      (''Missing viewport meta'', ''Medium''), (''No responsive media queries'', ''Low''),
      (''Empty or broken link'', ''Medium''), (''Link text not descriptive'', ''Low''),
      (''Broken link detected'', ''High''), (''Insufficient colour contrast'', ''High''),
      (''Keyboard navigation inaccessible'', ''High''), (''Elements removed from tab order'', ''Low''),
      (''Form field missing label'', ''Medium''), (''Missing user feedback hooks'', ''Low''),
      (''Small font size'', ''Low''), (''Tight line spacing'', ''Low''),
      (''Slow page performance'', ''Medium''), (''Broken image source'', ''Low'')]"

definition listed :: "string \<Rightarrow> finding \<Rightarrow> bool" where
  "listed link f = (page_url f = link \<and> (rule_name f, severity f) \<in> set later_rules)"

definition valid_severity :: "string \<Rightarrow> bool" where
  "valid_severity s = (s = ''High'' \<or> s = ''Medium'' \<or> s = ''Low'')"

definition named :: "string \<Rightarrow> finding \<Rightarrow> bool" where
  "named n f = (rule_name f = n)"

definition passes :: "anchor \<Rightarrow> bool" where
  \<comment> \<open>the loop over the anchors goes on past this one: its target is not empty and its
      liveness check answers with a status below 400\<close>
  "passes a =
     (\<not> href_empty a \<and> (case a_fetch a of Inr (abs_url, status) \<Rightarrow> status < 400 | Inl e \<Rightarrow> False))"

definition title_bad :: "soup \<Rightarrow> bool" where
  \<comment> \<open>no title element, a title without text, or a title whose stripped text has fewer than 5 characters\<close>
  "title_bad sp =
     (case sp_title sp of
        None \<Rightarrow> True
      | Some None \<Rightarrow> True
      | Some (Some s) \<Rightarrow> length (strip s) < 5)"

text \<open>
  The contrast formula in the words of the specification: a channel \<open>c\<close> in 0..255 is
  normalised to \<open>c / 255\<close>; at most 0.03928 it is divided by 12.92, above it is
  \<open>((c + 0.055) / 1.055) ^ 2.4\<close>; the luminance is \<open>0.2126 R + 0.7152 G + 0.0722 B\<close>.
\<close>

definition wcag_channel :: "nat \<Rightarrow> real" where
  "wcag_channel c =
     (if real c / 255 \<le> 0.03928 then (real c / 255) / 12.92
      else ((real c / 255 + 0.055) / 1.055) powr 2.4)"

definition wcag_luminance :: "rgb \<Rightarrow> real" where
  "wcag_luminance c =
     0.2126 * wcag_channel (fst c) + 0.7152 * wcag_channel (fst (snd c))
       + 0.0722 * wcag_channel (snd (snd c))"

definition unparsable :: "string option \<Rightarrow> bool" where
  \<comment> \<open>a colour value that is \<^verbatim>\<open>None\<close>, empty, or not of the form \<^verbatim>\<open>rgb(...)\<close> / \<^verbatim>\<open>rgba(...)\<close>\<close>
  "unparsable c = (case c of None \<Rightarrow> True | Some s \<Rightarrow> s = [] \<or> \<not> rgb_form s)"

definition low_contrast :: "style_item \<Rightarrow> bool" where
  \<comment> \<open>the sample's text colour against its effective background is below 4.5:1\<close>
  "low_contrast item =
     (contrast_ratio (parse_rgb (st_color item)) (parse_rgb (st_bg item)) < 4.5)"

definition urlopen :: "string \<Rightarrow> int \<Rightarrow> string \<Rightarrow> exn + string \<times> int" where
  \<comment> \<open>\<^verbatim>\<open>urllib.request.urlopen\<close> with the default opener, for a target whose final answer
      has the given HTTP status and reason: the opener's \<^verbatim>\<open>HTTPErrorProcessor\<close> passes on
      only answers with a status in 200..299; for every other it raises \<^verbatim>\<open>HTTPError\<close>,
      whose text is \<^verbatim>\<open>HTTP Error <status>: <reason>\<close>\<close>
  "urlopen abs_url status reason =
     (if 200 \<le> status \<and> status < 300 then Inr (abs_url, status)
      else Inl (''HTTP Error '' @ str_int status @ '': '' @ reason))"

section \<open>Sample inputs\<close>

definition sample_capture :: "string \<Rightarrow> capture_env" where
  "sample_capture u = \<lparr>overlay_raises = False, uuid_hex = u, save_raises = False\<rparr>"

definition sample_formats :: formats where
  "sample_formats = \<lparr>fmt_2f = (\<lambda>x. ''#''), fmt_0f = (\<lambda>x. ''#''), fmt_repr = (\<lambda>x. ''#'')\<rparr>"

definition sample_soup :: "string option option \<Rightarrow> string list \<Rightarrow> soup" where
  \<comment> \<open>a document with one level-1 heading, a viewport tag and a live region, no images,
      links or forms, and the given title and navigation links\<close>
  "sample_soup t nav =
     \<lparr>sp_title = t, sp_levels = [1], sp_imgs = [], sp_viewport_meta = True, sp_anchors = [],
      sp_forms = [], sp_nav_links = nav, sp_role_alert = True, sp_aria_live = True\<rparr>"

definition sample_page :: "exn + soup \<Rightarrow> page_env" where
  \<comment> \<open>a visit during which every call into the browser returns\<close>
  "sample_page sp =
     \<lparr>pe_get = None, pe_page_uuid = ''p0'', pe_page_save_raises = False, pe_soup = sp,
      pe_style = Inr [], pe_cap_title = sample_capture ''c1'',
      pe_cap_missing_h1 = sample_capture ''c2'', pe_mh = Inr [],
      pe_cap_multiple_h1 = sample_capture ''c3'', pe_hs = Inr None,
      pe_cap_skip = sample_capture ''c4'', pe_alt = Inr None, pe_cap_alt = sample_capture ''c5'',
      pe_mq = Inr (Some 2), pe_cap_viewport = sample_capture ''c6'',
      pe_cap_mq = sample_capture ''c7'', pe_cap_contrast = sample_capture ''c8'',
      pe_kb = Inr (Some \<lparr>tabbables = 3, blocked = 0\<rparr>),
      pe_cap_keyboard = sample_capture ''c9'', pe_blocked = Inr [],
      pe_cap_tab = sample_capture ''c10'', pe_cap_feedback = sample_capture ''c11'',
      pe_cap_small = sample_capture ''c12'', pe_cap_line = sample_capture ''c13'',
      pe_perf = Inr (Some 250), pe_cap_perf = sample_capture ''c14''\<rparr>"

definition sample_world :: world where
  "sample_world = \<lparr>chrome_raises = None, quit_raises = None, slot = length, fmt = sample_formats\<rparr>"

definition sample_item :: "string \<Rightarrow> string \<Rightarrow> style_item" where
  \<comment> \<open>black text on white with the given computed font size and line height\<close>
  "sample_item fs lh =
     \<lparr>st_text = ''Body text'', st_color = Some ''rgb(0, 0, 0)'',
      st_bg = Some ''rgb(255, 255, 255)'', st_fontSize = Some fs, st_lineHeight = Some lh,
      st_left = 8, st_top = 8, st_width = 600, st_height = 24\<rparr>"

definition sample_anchor ::
  "string \<Rightarrow> exn + string \<times> int \<Rightarrow> exn + rect option \<Rightarrow> exn + rect option \<Rightarrow> anchor" where
  \<comment> \<open>a link with the given target, liveness answer and answers of the two locating scripts\<close>
  "sample_anchor href fetch in_try in_except =
     \<lparr>a_href = Some href, a_text = ''Documentation'', a_locate_bad = Inr None,
      a_cap_bad = sample_capture ''a1'', a_locate_text = Inr None,
      a_cap_text = sample_capture ''a2'', a_fetch = fetch, a_locate_try = in_try,
      a_cap_http = sample_capture ''a3'', a_locate_exc = in_except,
      a_cap_fail = sample_capture ''a4''\<rparr>"

definition shared_titles_scan :: "(string \<times> page_env) list" where
  \<comment> \<open>pages 1 and 2 share a title, page 3 has its own\<close>
  "shared_titles_scan =
     [(''http://a.test/1'', sample_page (Inr (sample_soup (Some (Some ''Shared title'')) []))),
      (''http://a.test/2'', sample_page (Inr (sample_soup (Some (Some ''Shared title'')) []))),
      (''http://a.test/3'', sample_page (Inr (sample_soup (Some (Some ''Unique title'')) [])))]"

definition untitled_scan :: "(string \<times> page_env) list" where
  \<comment> \<open>two pages without a title element\<close>
  "untitled_scan =
     [(''http://a.test/1'', sample_page (Inr (sample_soup None []))),
      (''http://a.test/2'', sample_page (Inr (sample_soup None [])))]"

definition odd_nav_scan :: "(string \<times> page_env) list" where
  \<comment> \<open>pages 1 and 2 share their navigation links, page 3 differs\<close>
  "odd_nav_scan =
     [(''http://a.test/1'',
       sample_page (Inr (sample_soup (Some (Some ''Alpha page'')) [''Home'', ''About'']))),
      (''http://a.test/2'',
       sample_page (Inr (sample_soup (Some (Some ''Beta page'')) [''Home'', ''About'']))),
      (''http://a.test/3'',
       sample_page (Inr (sample_soup (Some (Some ''Gamma page'')) [''Home'', ''Blog''])))]"

definition single_nav_scan :: "(string \<times> page_env) list" where
  \<comment> \<open>pages 1 and 2 have no navigation links, page 3 has some\<close>
  "single_nav_scan =
     [(''http://a.test/1'', sample_page (Inr (sample_soup (Some (Some ''Alpha page'')) []))),
      (''http://a.test/2'', sample_page (Inr (sample_soup (Some (Some ''Beta page'')) []))),
      (''http://a.test/3'',
       sample_page (Inr (sample_soup (Some (Some ''Gamma page'')) [''Home'', ''About''])))]"

section \<open>Effects of the building blocks\<close>

lemma issues_of_simps [simp]:
  "issues_of [] = []"
  "issues_of (e # es) = issue_of e @ issues_of es"
  "issues_of (a @ b) = issues_of a @ issues_of b"
  by (simp_all add: issues_of_def)

lemma capture_no_issue [simp]:
  "issues_of (snd (capture_rule_screenshot d ce rs k l)) = []"
  by (simp add: capture_rule_screenshot_def Let_def)

lemma step_ok [simp]: "fst (ok es) = es" "snd (ok es) = None"
  by (simp_all add: ok_def)

lemma step_raise [simp]: "fst (raise e) = []" "snd (raise e) = Some e"
  by (simp_all add: raise_def)

lemma step_fire [simp]:
  "fst (fire cap mk) = snd cap @ [Issue (mk (fst cap))]" "snd (fire cap mk) = None"
  by (simp_all add: fire_def)

lemma fst_seq: "fst (seq a b) = fst a @ (if snd a = None then fst b else [])"
  by (cases a) (auto simp: seq_def split: option.splits)

lemma snd_seq: "snd (seq a b) = (case snd a of Some e \<Rightarrow> Some e | None \<Rightarrow> snd b)"
  by (cases a) (auto simp: seq_def split: option.splits)

lemma step_script:
  "fst (script r k) = (case r of Inl e \<Rightarrow> [] | Inr v \<Rightarrow> fst (k v))"
  "snd (script r k) = (case r of Inl e \<Rightarrow> Some e | Inr v \<Rightarrow> snd (k v))"
  by (simp_all add: script_def split: sum.splits)

lemma seqs_Nil: "seqs [] = ok []"
  by (simp add: seqs_def)

lemma seqs_Cons: "seqs (s # ss) = seq s (seqs ss)"
  by (simp add: seqs_def)

lemma seq_listed:
  "\<forall>f\<in>set (issues_of (fst a)). P f \<Longrightarrow> \<forall>f\<in>set (issues_of (fst b)). P f \<Longrightarrow>
   \<forall>f\<in>set (issues_of (fst (seq a b))). P f"
  by (auto simp: fst_seq)

lemma script_listed:
  "(\<And>v. r = Inr v \<Longrightarrow> \<forall>f\<in>set (issues_of (fst (k v))). P f) \<Longrightarrow>
   \<forall>f\<in>set (issues_of (fst (script r k))). P f"
  by (auto simp: step_script split: sum.splits)

lemma ok_nil_listed: "\<forall>f\<in>set (issues_of (fst (ok []))). P f"
  by simp

lemma filter_none: "\<forall>x\<in>set xs. \<not> P x \<Longrightarrow> filter P xs = []"
  by (induction xs) auto

section \<open>Every rule after the title rule appends only its own findings\<close>

lemma in_later_rules:
  "(''Missing H1 heading'', ''Medium'') \<in> set later_rules"
  "(''Multiple H1 headings'', ''Low'') \<in> set later_rules"
  "(''Heading level skips'', ''Low'') \<in> set later_rules"
  "(''Image alt text not meaningful'', ''High'') \<in> set later_rules"
  "(''Missing viewport meta'', ''Medium'') \<in> set later_rules"
  "(''No responsive media queries'', ''Low'') \<in> set later_rules"
  "(''Empty or broken link'', ''Medium'') \<in> set later_rules"
  "(''Link text not descriptive'', ''Low'') \<in> set later_rules"
  "(''Broken link detected'', ''High'') \<in> set later_rules"
  "(''Insufficient colour contrast'', ''High'') \<in> set later_rules"
  "(''Keyboard navigation inaccessible'', ''High'') \<in> set later_rules"
  "(''Elements removed from tab order'', ''Low'') \<in> set later_rules"
  "(''Form field missing label'', ''Medium'') \<in> set later_rules"
  "(''Missing user feedback hooks'', ''Low'') \<in> set later_rules"
  "(''Small font size'', ''Low'') \<in> set later_rules"
  "(''Tight line spacing'', ''Low'') \<in> set later_rules"
  "(''Slow page performance'', ''Medium'') \<in> set later_rules"
  "(''Broken image source'', ''Low'') \<in> set later_rules"
  unfolding later_rules_def by (simp_all only: list.set insertI1 insertI2 insert_iff simp_thms)

lemma listed_issue:
  "(n, s) \<in> set later_rules \<Longrightarrow> listed link (issue n link d s e)"
  by (simp add: listed_def issue_def)

lemma heading_skips_listed:
  "\<forall>f\<in>set (issues_of (fst (heading_skips dir link pe ps))). listed link f"
  by (induction ps)
     (auto simp: step_script listed_issue in_later_rules split: sum.splits if_splits)

lemma headings_listed: "\<forall>f\<in>set (issues_of (fst (rule_headings dir link pe sp))). listed link f"
  unfolding rule_headings_def Let_def
  by (intro seq_listed heading_skips_listed)
     (auto simp: step_script listed_issue in_later_rules split: sum.splits)

lemma alt_listed: "\<forall>f\<in>set (issues_of (fst (alt_loop dir link pe ims))). listed link f"
  by (induction ims) (auto simp: step_script listed_issue in_later_rules split: sum.splits)

lemma responsive_listed: "\<forall>f\<in>set (issues_of (fst (rule_responsive dir link pe sp))). listed link f"
  unfolding rule_responsive_def
  by (intro script_listed seq_listed) (auto simp: listed_issue in_later_rules)

lemma failed_to_open_listed: "\<forall>f\<in>set (issues_of (fst (failed_to_open dir link a))). listed link f"
  unfolding failed_to_open_def
  by (intro script_listed) (auto simp: listed_issue in_later_rules)

lemma link_text_listed: "\<forall>f\<in>set (issues_of (fst (link_text_check dir link a))). listed link f"
  unfolding link_text_check_def Let_def
  by (auto simp: listed_issue in_later_rules split: sum.splits)

lemma anchors_listed: "\<forall>f\<in>set (issues_of (fst (anchors_loop dir link as))). listed link f"
proof (induction as)
  case Nil
  then show ?case by simp
next
  case (Cons a as)
  show ?case
  proof (cases "href_empty a")
    case True
    then show ?thesis
      by (auto simp: step_script listed_issue in_later_rules split: sum.splits)
  next
    case False
    then show ?thesis
      using Cons failed_to_open_listed [of dir link a] link_text_listed [of dir link a]
      by (auto simp: fst_seq listed_issue in_later_rules split: sum.splits prod.splits if_splits)
  qed
qed

lemma contrast_listed:
  "\<forall>f\<in>set (issues_of (fst (rule_contrast dir F link pe items))). listed link f"
  unfolding rule_contrast_def
  by (auto simp: listed_issue in_later_rules split: prod.splits)

lemma keyboard_listed: "\<forall>f\<in>set (issues_of (fst (rule_keyboard dir link pe))). listed link f"
  unfolding rule_keyboard_def
  by (intro script_listed seq_listed)
     (auto simp: step_script listed_issue in_later_rules split: sum.splits)

lemma inputs_listed: "\<forall>f\<in>set (issues_of (fst (inputs_loop dir link inps))). listed link f"
  by (induction inps)
     (auto simp: step_script Let_def listed_issue in_later_rules split: sum.splits if_splits)

lemma forms_listed: "\<forall>f\<in>set (issues_of (fst (forms_loop dir link forms))). listed link f"
  using inputs_listed by (induction forms) (auto simp: fst_seq split: if_splits)

lemma nav_listed: "\<forall>f\<in>set (issues_of (fst (rule_nav link sp))). listed link f"
  by (simp add: rule_nav_def)

lemma feedback_listed: "\<forall>f\<in>set (issues_of (fst (rule_feedback dir link pe sp))). listed link f"
  by (simp add: rule_feedback_def listed_issue in_later_rules)

lemma readability_listed:
  "\<forall>f\<in>set (issues_of (fst (readability_loop dir F link pe items))). listed link f"
  by (induction items) (auto simp: Let_def listed_issue in_later_rules split: if_splits)

lemma performance_listed:
  "\<forall>f\<in>set (issues_of (fst (rule_performance dir F link pe))). listed link f"
  unfolding rule_performance_def
  by (intro script_listed) (auto simp: Let_def listed_issue in_later_rules)

lemma failed_to_load_listed: "\<forall>f\<in>set (issues_of (fst (failed_to_load dir link im))). listed link f"
  unfolding failed_to_load_def
  by (intro script_listed) (auto simp: listed_issue in_later_rules)

lemma images_listed: "\<forall>f\<in>set (issues_of (fst (images_loop dir link ims))). listed link f"
proof (induction ims)
  case Nil
  then show ?case by simp
next
  case (Cons im ims)
  then show ?case
    using failed_to_load_listed [of dir link im]
    by (auto simp: listed_issue in_later_rules split: sum.splits prod.splits if_splits)
qed

lemma later_listed:
  "\<forall>f\<in>set (issues_of (fst (seqs (later_steps dir F link pe sp items)))). listed link f"
  unfolding later_steps_def seqs_Cons seqs_Nil
  by (intro seq_listed headings_listed alt_listed responsive_listed anchors_listed
        contrast_listed keyboard_listed forms_listed nav_listed feedback_listed
        readability_listed performance_listed images_listed ok_nil_listed)

lemma listed_not_title: "listed link f \<Longrightarrow> \<not> named ''Page title not descriptive'' f"
  by (auto simp: listed_def later_rules_def named_def)


lemma listed_valid: "listed link f \<Longrightarrow> valid_severity (severity f)"
  by (auto simp: listed_def later_rules_def valid_severity_def)

section \<open>The title rule and the shape of one visit\<close>

lemma title_bad_iff: "title_bad sp \<longleftrightarrow> length (page_title sp) < 5"
  by (auto simp: title_bad_def page_title_def strip_def split: option.splits)

lemma title_never_raises: "snd (rule_title dir link pe sp) = None"
  by (simp add: rule_title_def Let_def snd_seq)

lemma title_issues:
  "issues_of (fst (rule_title dir link pe sp)) =
     (if title_bad sp
      then [issue ''Page title not descriptive'' link
              ''Provide a unique, descriptive <title> of at least 5 characters.'' ''High''
              (Some (fst (capture_rule_screenshot dir (pe_cap_title pe) [] ''title''
                             (Some ''Page title''))))]
      else [])"
  by (auto simp: rule_title_def Let_def fst_seq title_bad_iff)

lemma page_rules_issues:
  "issues_of (fst (page_rules dir F link pe sp items)) =
     issues_of (fst (rule_title dir link pe sp)) @
     issues_of (fst (seqs (later_steps dir F link pe sp items)))"
  by (simp add: page_rules_def seqs_Cons fst_seq title_never_raises)

lemma page_screenshot_facts [simp]:
  "snd (page_screenshot dir link pe) = None"
  "issues_of (fst (page_screenshot dir link pe)) = []"
  by (simp_all add: page_screenshot_def Let_def)

lemma page_body_loaded:
  "pe_get pe = None \<Longrightarrow> pe_soup pe = Inr sp \<Longrightarrow> pe_style pe = Inr items \<Longrightarrow>
   issues_of (fst (page_body dir F link pe)) = issues_of (fst (page_rules dir F link pe sp items))"
  by (simp add: page_body_def fst_seq step_script)

lemma scan_page_issues:
  "issues_of (scan_page dir F link pe) =
     issues_of (fst (page_body dir F link pe)) @
     (case snd (page_body dir F link pe) of
        None \<Rightarrow> []
      | Some e \<Rightarrow> [issue ''Page load error'' link e ''High'' None])"
  by (cases "page_body dir F link pe") (auto simp: scan_page_def split: option.splits)

text \<open>
  Claim C4. On a visit that loads (navigation, parsing and the style script all return),
  the findings named \<^verbatim>\<open>Page title not descriptive\<close> appended for that visit are exactly one,
  with severity \<^verbatim>\<open>High\<close>, when the page has no title element, a title without text, or a
  title whose text, stripped of surrounding white space as the code strips it, has fewer
  than 5 characters; and none when the stripped title has 5 or more characters. This
  holds whether or not a later rule of the same visit raises.
\<close>

theorem title_quality:
  assumes "pe_get pe = None" and "pe_soup pe = Inr sp" and "pe_style pe = Inr items"
  shows "filter (named ''Page title not descriptive'') (issues_of (scan_page dir F link pe)) =
           (if title_bad sp
            then [issue ''Page title not descriptive'' link
                    ''Provide a unique, descriptive <title> of at least 5 characters.'' ''High''
                    (Some (fst (capture_rule_screenshot dir (pe_cap_title pe) [] ''title''
                                   (Some ''Page title''))))]
            else [])"
proof -
  have later: "filter (named ''Page title not descriptive'')
                 (issues_of (fst (seqs (later_steps dir F link pe sp items)))) = []"
    using later_listed [of dir F link pe sp items] listed_not_title
    by (intro filter_none) blast
  have ple: "filter (named ''Page title not descriptive'')
               (case snd (page_body dir F link pe) of
                  None \<Rightarrow> []
                | Some e \<Rightarrow> [issue ''Page load error'' link e ''High'' None]) = []"
    by (simp add: named_def issue_def split: option.splits)
  show ?thesis
    unfolding scan_page_issues page_body_loaded [OF assms] page_rules_issues filter_append
      later ple title_issues
    by (simp add: named_def issue_def)
qed

theorem title_quality_witness:
  "pe_get (sample_page (Inr (sample_soup (Some (Some ''  Hi  '')) []))) = None \<and>
   pe_soup (sample_page (Inr (sample_soup (Some (Some ''  Hi  '')) []))) =
     Inr (sample_soup (Some (Some ''  Hi  '')) []) \<and>
   pe_style (sample_page (Inr (sample_soup (Some (Some ''  Hi  '')) []))) = Inr [] \<and>
   filter (named ''Page title not descriptive'')
     (issues_of (scan_page ''shots'' sample_formats ''http://a.test/''
        (sample_page (Inr (sample_soup (Some (Some ''  Hi  '')) []))))) =
     [issue ''Page title not descriptive'' ''http://a.test/''
        ''Provide a unique, descriptive <title> of at least 5 characters.'' ''High''
        (Some ''screenshot_c1_title.png'')]"
  using title_quality [of "sample_page (Inr (sample_soup (Some (Some ''  Hi  '')) []))"
      "sample_soup (Some (Some ''  Hi  '')) []" "[]" "''shots''" sample_formats "''http://a.test/''"]
  by (simp add: sample_page_def sample_soup_def sample_capture_def title_bad_def strip_def
      isspace_def capture_rule_screenshot_def Let_def)

section \<open>Findings of a visit and of the whole scan\<close>

lemma body_issue_kinds:
  assumes "f \<in> set (issues_of (fst (page_body dir F link pe)))"
  shows "f = issue ''Page title not descriptive'' link
              ''Provide a unique, descriptive <title> of at least 5 characters.'' ''High''
              (Some (fst (capture_rule_screenshot dir (pe_cap_title pe) [] ''title''
                             (Some ''Page title'')))) \<or> listed link f"
proof (cases "pe_get pe")
  case (Some e)
  with assms show ?thesis by (simp add: page_body_def)
next
  case None
  show ?thesis
  proof (cases "pe_soup pe")
    case (Inl e)
    with None assms show ?thesis by (simp add: page_body_def fst_seq step_script)
  next
    case sp: (Inr sp)
    show ?thesis
    proof (cases "pe_style pe")
      case (Inl e)
      with None sp assms show ?thesis by (simp add: page_body_def fst_seq step_script)
    next
      case (Inr items)
      from assms have "f \<in> set (issues_of (fst (rule_title dir link pe sp))) \<or>
          f \<in> set (issues_of (fst (seqs (later_steps dir F link pe sp items))))"
        unfolding page_body_loaded [OF None sp Inr] page_rules_issues by simp
      then show ?thesis
        using later_listed [of dir F link pe sp items]
        by (auto simp: title_issues split: if_splits)
    qed
  qed
qed


lemma body_valid:
  "f \<in> set (issues_of (fst (page_body dir F link pe))) \<Longrightarrow> valid_severity (severity f)"
  using body_issue_kinds [of f dir F link pe] listed_valid [of link f]
  by (auto simp: valid_severity_def issue_def)

lemma scan_page_valid:
  "f \<in> set (issues_of (scan_page dir F link pe)) \<Longrightarrow> valid_severity (severity f)"
  unfolding scan_page_issues
  using body_valid [of f dir F link pe]
  by (auto simp: valid_severity_def issue_def split: option.splits)


lemma scan_loop_valid:
  "f \<in> set (issues_of (scan_loop dir F visits)) \<Longrightarrow> valid_severity (severity f)"
  by (induction visits) (auto dest: scan_page_valid)

lemma duplicate_titles_shape:
  "f \<in> set (duplicate_titles tm) \<Longrightarrow>
   rule_name f = ''Non-unique page title'' \<and> severity f = ''Medium'' \<and> evidence_ref f = None"
  by (auto simp: duplicate_titles_def Let_def issue_def split: if_splits)

lemma inconsistent_navigation_shape:
  "f \<in> set (inconsistent_navigation pos nm) \<Longrightarrow>
   rule_name f = ''Inconsistent navigation'' \<and> severity f = ''Low'' \<and> evidence_ref f = None"
  by (auto simp: inconsistent_navigation_def Let_def issue_def split: if_splits)

lemma navigation_raises: "pe_get pe = Some e \<Longrightarrow> snd (page_body dir F link pe) = Some e"
  by (simp add: page_body_def)


lemma style_script_raises:
  "pe_get pe = None \<Longrightarrow> pe_soup pe = Inr sp \<Longrightarrow> pe_style pe = Inl e \<Longrightarrow>
   snd (page_body dir F link pe) = Some e"
  by (simp add: page_body_def snd_seq step_script)


text \<open>
  Claim C10. Every finding in the list that \<^verbatim>\<open>run_scan\<close> returns carries one of the
  three severity strings \<^verbatim>\<open>High\<close>, \<^verbatim>\<open>Medium\<close> and \<^verbatim>\<open>Low\<close>, whatever the pages
  contain and whichever calls raise.
\<close>

theorem severity_closed:
  assumes "run_scan w visits dir = Inr (issues, shots)" and "f \<in> set issues"
  shows "severity f = ''High'' \<or> severity f = ''Medium'' \<or> severity f = ''Low''"
proof -
  let ?es = "scan_loop dir (fmt w) visits"
  from assms(1) have "issues = issues_of ?es @ duplicate_titles (title_map_of ?es)
      @ inconsistent_navigation (slot w) (nav_signatures_of ?es)"
    by (auto simp: run_scan_def Let_def split: option.splits)
  with assms(2) consider "f \<in> set (issues_of ?es)"
    | "f \<in> set (duplicate_titles (title_map_of ?es))"
    | "f \<in> set (inconsistent_navigation (slot w) (nav_signatures_of ?es))"
    by auto
  then show ?thesis
  proof cases
    case 1
    then show ?thesis using scan_loop_valid [of f dir "fmt w" visits]
      by (simp add: valid_severity_def)
  next
    case 2
    then show ?thesis using duplicate_titles_shape by blast
  next
    case 3
    then show ?thesis using inconsistent_navigation_shape by blast
  qed
qed

lemma sample_failure:
  "run_scan sample_world [(''http://a.test/'', sample_page (Inl ''boom''))] ''shots'' =
     Inr ([issue ''Page load error'' ''http://a.test/'' ''boom'' ''High'' None],
          [(''http://a.test/'', ''screenshot_p0_page.png'')])"
  by (simp add: run_scan_def sample_world_def sample_page_def scan_page_def page_body_def
      page_screenshot_def Let_def seq_def script_def ok_def raise_def issues_of_def
      page_screenshots_of_def title_map_of_def nav_signatures_of_def duplicate_titles_def
      inconsistent_navigation_def path_join_def)

theorem severity_closed_witness:
  "run_scan sample_world [(''http://a.test/'', sample_page (Inl ''boom''))] ''shots'' =
     Inr ([issue ''Page load error'' ''http://a.test/'' ''boom'' ''High'' None],
          [(''http://a.test/'', ''screenshot_p0_page.png'')]) \<and>
   issue ''Page load error'' ''http://a.test/'' ''boom'' ''High'' None
     \<in> set [issue ''Page load error'' ''http://a.test/'' ''boom'' ''High'' None] \<and>
   (severity (issue ''Page load error'' ''http://a.test/'' ''boom'' ''High'' None) = ''High'' \<or>
    severity (issue ''Page load error'' ''http://a.test/'' ''boom'' ''High'' None) = ''Medium'' \<or>
    severity (issue ''Page load error'' ''http://a.test/'' ''boom'' ''High'' None) = ''Low'')"
  using severity_closed [OF sample_failure,
      of "issue ''Page load error'' ''http://a.test/'' ''boom'' ''High'' None"] sample_failure
  by simp






section \<open>Contrast ratio and colour parsing\<close>

lemma channel_0: "channel 0 = 0"
  by (simp add: channel_def)

lemma channel_255: "channel 255 = 1"
  by (simp add: channel_def)

lemma luminance_black: "relative_luminance (0, 0, 0) = 0"
  by (simp add: relative_luminance_def channel_0)

lemma luminance_white: "relative_luminance (255, 255, 255) = 1"
  by (simp add: relative_luminance_def channel_255)

lemma channel_wcag: "channel c = wcag_channel c"
  by (simp add: channel_def wcag_channel_def Let_def)

lemma luminance_wcag: "relative_luminance c = wcag_luminance c"
  by (cases c) (simp add: relative_luminance_def wcag_luminance_def channel_wcag)

lemma channel_10: "channel 10 = 10 / 255 / 12.92"
  by (simp add: channel_def)

lemma channel_11: "channel 11 = ((11 / 255 + 0.055) / 1.055) powr 2.4"
  by (simp add: channel_def)

lemma grey_luminance: "relative_luminance (c, c, c) = channel c"
proof -
  have "0.2126 * x + 0.7152 * x + 0.0722 * x = (0.2126 + 0.7152 + 0.0722) * x" for x :: real
    by (simp only: distrib_right)
  then have "0.2126 * x + 0.7152 * x + 0.0722 * x = x" for x :: real
    by simp
  then show ?thesis by (simp add: relative_luminance_def)
qed

text \<open>
  Claim C5. The contrast ratio of the code is the formula of the specification: each
  channel is normalised and gamma-corrected (linear up to 0.03928, the power 2.4 above),
  the luminance is \<open>0.2126 R + 0.7152 G + 0.0722 B\<close>, and the ratio is the larger
  luminance plus 0.05 over the smaller plus 0.05. It does not depend on the order of its
  two colours, and black on white gives 21 (here exactly, over the reals; the claim
  allows 0.01). Channel 10 still falls on the linear part and channel 11 on the power.
\<close>

theorem contrast_ratio_symmetric:
  "contrast_ratio fg bg = contrast_ratio bg fg \<and>
   \<bar>contrast_ratio (0, 0, 0) (255, 255, 255) - 21\<bar> \<le> 0.01 \<and>
   contrast_ratio fg bg =
     (max (wcag_luminance fg) (wcag_luminance bg) + 0.05) /
     (min (wcag_luminance fg) (wcag_luminance bg) + 0.05) \<and>
   contrast_ratio (10, 10, 10) (0, 0, 0) = (10 / 255 / 12.92 + 0.05) / 0.05 \<and>
   contrast_ratio (11, 11, 11) (0, 0, 0) = (((11 / 255 + 0.055) / 1.055) powr 2.4 + 0.05) / 0.05"
proof (intro conjI)
  show "contrast_ratio fg bg = contrast_ratio bg fg"
    by (simp add: contrast_ratio_def max.commute min.commute)
  have "contrast_ratio (0, 0, 0) (255, 255, 255) = 21"
    by (simp add: contrast_ratio_def luminance_black luminance_white)
  then show "\<bar>contrast_ratio (0, 0, 0) (255, 255, 255) - 21\<bar> \<le> 0.01"
    by simp
  show "contrast_ratio fg bg =
     (max (wcag_luminance fg) (wcag_luminance bg) + 0.05) /
     (min (wcag_luminance fg) (wcag_luminance bg) + 0.05)"
    by (simp add: contrast_ratio_def luminance_wcag Let_def)
  show "contrast_ratio (10, 10, 10) (0, 0, 0) = (10 / 255 / 12.92 + 0.05) / 0.05"
    by (simp add: contrast_ratio_def grey_luminance channel_0 channel_10 Let_def)
  define x :: real where "x = ((11 / 255 + 0.055) / 1.055) powr 2.4"
  have x0: "0 \<le> x" unfolding x_def by (rule powr_ge_zero)
  have c: "channel 11 = x" unfolding x_def by (rule channel_11)
  have "contrast_ratio (11, 11, 11) (0, 0, 0) = (max x 0 + 0.05) / (min x 0 + 0.05)"
    by (simp add: contrast_ratio_def grey_luminance channel_0 c Let_def)
  also have "\<dots> = (x + 0.05) / 0.05"
    using x0 by (simp add: max_absorb1 min_absorb2)
  finally show "contrast_ratio (11, 11, 11) (0, 0, 0) =
      (((11 / 255 + 0.055) / 1.055) powr 2.4 + 0.05) / 0.05"
    unfolding x_def .
qed

lemma lit_Some: "lit p s = Some t \<longleftrightarrow> s = p @ t"
  by (auto simp: lit_def) (metis append_take_drop_id)

lemma digits1_Some: "digits1 s = Some (d, t) \<Longrightarrow> s = d @ t \<and> number_text d"
  by (auto simp: digits1_def Let_def number_text_def list_all_iff split: if_splits
      dest: set_takeWhileD)

lemma spaces_split: "\<exists>w. s = w @ spaces s \<and> blank_text w"
  by (rule exI [of _ "takeWhile isspace s"])
     (auto simp: spaces_def blank_text_def list_all_iff dest: set_takeWhileD)

lemma digit_not_space: "isdigit c \<Longrightarrow> \<not> isspace c"
  by (auto simp: isdigit_def isspace_def)

lemma comma_plain: "\<not> isdigit CHR '',''" "\<not> isspace CHR '',''"
  by (simp_all add: isdigit_def isspace_def)

lemma digits1_then_blank:
  assumes "number_text d" and "blank_text w"
  shows "digits1 (d @ w @ CHR '','' # z) = Some (d, w @ CHR '','' # z)"
proof -
  have nd: "takeWhile isdigit (w @ CHR '','' # z) = []"
    using assms(2) by (cases w) (auto simp: blank_text_def comma_plain dest: digit_not_space)
  have d: "\<And>x. x \<in> set d \<Longrightarrow> isdigit x"
    using assms(1) by (simp add: number_text_def list_all_iff)
  have "takeWhile isdigit (d @ w @ CHR '','' # z) = d"
    using d nd by (simp add: takeWhile_append2)
  moreover have "dropWhile isdigit (d @ w @ CHR '','' # z) = w @ CHR '','' # z"
    using d nd by (simp add: dropWhile_append2 takeWhile_eq_Nil_iff dropWhile_eq_self_iff)
  ultimately show ?thesis
    using assms(1) by (simp add: digits1_def Let_def number_text_def)
qed

lemma digits1_start:
  assumes "number_text d"
  shows "\<exists>d' t. digits1 (d @ z) = Some (d', t)"
proof -
  from assms obtain c cs where "d = c # cs" "isdigit c"
    by (cases d) (auto simp: number_text_def)
  then show ?thesis by (simp add: digits1_def Let_def)
qed

lemma spaces_comma: "blank_text w \<Longrightarrow> spaces (w @ CHR '','' # z) = CHR '','' # z"
  by (simp add: spaces_def blank_text_def list_all_iff dropWhile_append2 comma_plain)

lemma spaces_number:
  "blank_text w \<Longrightarrow> number_text d \<Longrightarrow> spaces (w @ d @ z) = d @ z"
  by (cases d)
     (auto simp: spaces_def blank_text_def number_text_def list_all_iff dropWhile_append2
        dest: digit_not_space)

lemma lit_spaces:
  "lit p (spaces s) = Some t \<Longrightarrow> \<exists>w. s = w @ p @ t \<and> blank_text w"
  using spaces_split [of s] by (auto simp: lit_Some)

lemma digits1_spaces:
  "digits1 (spaces s) = Some (d, t) \<Longrightarrow> \<exists>w. s = w @ d @ t \<and> blank_text w \<and> number_text d"
  using spaces_split [of s] digits1_Some [of "spaces s" d t] by auto

lemma rgb_match_sound:
  assumes "rgb_match s = Some (r, g, b)"
  shows "rgb_form s"
proof -
  from assms obtain s1 s3 s4 s5 s6 s7 s8 where
    1: "lit ''rgb'' s = Some s1" and
    3: "lit ''('' (case lit ''a'' s1 of Some t \<Rightarrow> t | None \<Rightarrow> s1) = Some s3" and
    4: "digits1 s3 = Some (r, s4)" and
    5: "lit '','' (spaces s4) = Some s5" and
    6: "digits1 (spaces s5) = Some (g, s6)" and
    7: "lit '','' (spaces s6) = Some s7" and
    8: "digits1 (spaces s7) = Some (b, s8)"
    by (auto simp: rgb_match_def split: Option.bind_splits)
  have e1: "s = ''rgb'' @ s1" using 1 by (simp add: lit_Some)
  obtain a where a: "s1 = a @ ''('' @ s3" "a = [] \<or> a = ''a''"
    using 3 by (auto simp: lit_Some split: option.splits)
  have e3: "s3 = r @ s4" "number_text r" using digits1_Some [OF 4] by simp_all
  obtain w1 where w1: "s4 = w1 @ '','' @ s5" "blank_text w1" using lit_spaces [OF 5] by blast
  obtain w2 where w2: "s5 = w2 @ g @ s6" "blank_text w2" "number_text g"
    using digits1_spaces [OF 6] by blast
  obtain w3 where w3: "s6 = w3 @ '','' @ s7" "blank_text w3" using lit_spaces [OF 7] by blast
  obtain w4 where w4: "s7 = w4 @ b @ s8" "blank_text w4" "number_text b"
    using digits1_spaces [OF 8] by blast
  have "s = ''rgb'' @ a @ ''('' @ r @ w1 @ '','' @ w2 @ g @ w3 @ '','' @ w4 @ b @ s8"
    unfolding e1 a(1) e3(1) w1(1) w2(1) w3(1) w4(1) by simp
  then show ?thesis
    unfolding rgb_form_def
    using a(2) e3(2) w1(2) w2(2,3) w3(2) w4(2,3) by blast
qed

lemma optional_a:
  "a = [] \<or> a = ''a'' \<Longrightarrow>
   lit ''('' (case lit ''a'' (a @ CHR ''('' # z) of Some t \<Rightarrow> t | None \<Rightarrow> a @ CHR ''('' # z)
     = Some z"
  by (auto simp: lit_def)

lemma rgb_match_complete:
  assumes "rgb_form s"
  shows "rgb_match s \<noteq> None"
proof -
  from assms obtain a r w1 w2 g w3 w4 b rest where
    s: "s = ''rgb'' @ a @ ''('' @ r @ w1 @ '','' @ w2 @ g @ w3 @ '','' @ w4 @ b @ rest" and
    a: "a = [] \<or> a = ''a''" and
    n: "number_text r" "number_text g" "number_text b" and
    w: "blank_text w1" "blank_text w2" "blank_text w3" "blank_text w4"
    unfolding rgb_form_def by blast
  let ?z3 = "w4 @ b @ rest"
  let ?z2 = "w2 @ g @ w3 @ CHR '','' # ?z3"
  let ?s3 = "r @ w1 @ CHR '','' # ?z2"
  have 1: "lit ''rgb'' s = Some (a @ CHR ''('' # ?s3)"
    by (simp add: lit_Some s)
  have 4: "digits1 ?s3 = Some (r, w1 @ CHR '','' # ?z2)"
    by (rule digits1_then_blank [OF n(1) w(1)])
  have 5: "lit '','' (spaces (w1 @ CHR '','' # ?z2)) = Some ?z2"
    by (simp add: spaces_comma [OF w(1)] lit_def)
  have 6: "digits1 (spaces ?z2) = Some (g, w3 @ CHR '','' # ?z3)"
    using spaces_number [OF w(2) n(2), of "w3 @ CHR '','' # ?z3"]
      digits1_then_blank [OF n(2) w(3), of ?z3] by simp
  have 7: "lit '','' (spaces (w3 @ CHR '','' # ?z3)) = Some ?z3"
    by (simp add: spaces_comma [OF w(3)] lit_def)
  obtain b' t where 8: "digits1 (spaces ?z3) = Some (b', t)"
    using spaces_number [OF w(4) n(3), of rest] digits1_start [OF n(3), of rest] by auto
  have "rgb_match s = Some (r, g, b')"
    unfolding rgb_match_def 1 bind.bind_lunit optional_a [OF a] 4 prod.case 5 6 7 8
    by (rule refl)
  then show ?thesis by simp
qed


lemma contrast_loop_keeps:
  "contrast_loop F items rects (Some d) = (rs, f) \<Longrightarrow> f = Some d \<and> (rects \<noteq> [] \<longrightarrow> rs \<noteq> [])"
proof (induction items arbitrary: rects)
  case Nil
  then show ?case by simp
next
  case (Cons item items)
  show ?case
  proof (cases "low_contrast item")
    case False
    then show ?thesis using Cons by (simp add: low_contrast_def Let_def)
  next
    case True
    then show ?thesis
      using Cons.prems Cons.IH
      by (auto simp: low_contrast_def Let_def split: if_splits)
  qed
qed

lemma contrast_loop_pass:
  "\<forall>x\<in>set pre. \<not> low_contrast x \<Longrightarrow>
   contrast_loop F (pre @ xs) rects first = contrast_loop F xs rects first"
  by (induction pre) (simp_all add: low_contrast_def Let_def)

lemma contrast_first_offender:
  assumes "\<forall>x\<in>set pre. \<not> low_contrast x" and "low_contrast item"
  shows "issues_of (fst (rule_contrast dir F link pe (pre @ item # rest))) =
     [issue ''Insufficient colour contrast'' link
        (''Contrast '' @ fmt_2f F (contrast_ratio (parse_rgb (st_color item)) (parse_rgb (st_bg item)))
           @ '':1 below 4.5:1 for text '' @ [CHR 0x27] @ st_text item @ [CHR 0x27] @ ''.'')
        ''High'' (Some (''screenshot_'' @ uuid_hex (pe_cap_contrast pe) @ ''_contrast.png''))]"
proof -
  let ?d = "''Contrast '' @ fmt_2f F (contrast_ratio (parse_rgb (st_color item)) (parse_rgb (st_bg item)))
           @ '':1 below 4.5:1 for text '' @ [CHR 0x27] @ st_text item @ [CHR 0x27] @ ''.''"
  let ?r = "\<lparr>r_left = st_left item, r_top = st_top item, r_width = st_width item,
             r_height = st_height item,
             r_label = Some (''Contrast '' @ fmt_2f F (contrast_ratio (parse_rgb (st_color item))
                (parse_rgb (st_bg item))) @ '':1'')\<rparr>"
  have step: "contrast_loop F (pre @ item # rest) [] None = contrast_loop F rest [?r] (Some ?d)"
    using assms(2) by (simp add: contrast_loop_pass [OF assms(1)] low_contrast_def Let_def)
  obtain rs f where res: "contrast_loop F rest [?r] (Some ?d) = (rs, f)"
    by (cases "contrast_loop F rest [?r] (Some ?d)")
  from contrast_loop_keeps [OF res] have f: "f = Some ?d" and rs: "rs \<noteq> []" by simp_all
  have shot: "fst (capture_rule_screenshot dir ce rects ''contrast'' l) =
      ''screenshot_'' @ uuid_hex ce @ ''_contrast.png''" for ce rects l
    by (simp add: capture_rule_screenshot_def Let_def)
  show ?thesis
    unfolding rule_contrast_def step res
    using rs by (simp add: f truthy_def shot)
qed

lemma unparsable_black: "unparsable c \<Longrightarrow> parse_rgb c = (0, 0, 0)"
proof (cases c)
  case None
  then show ?thesis by (simp add: parse_rgb_def truthy_def)
next
  case (Some s)
  assume "unparsable c"
  with Some have "s = [] \<or> \<not> rgb_form s" by (simp add: unparsable_def)
  then show ?thesis
  proof
    assume "s = []"
    with Some show ?thesis by (simp add: parse_rgb_def truthy_def)
  next
    assume n: "\<not> rgb_form s"
    show ?thesis
    proof (cases "rgb_match s")
      case None
      with Some show ?thesis by (simp add: parse_rgb_def)
    next
      case (Some t)
      then show ?thesis using n rgb_match_sound [of s] by (cases t) auto
    qed
  qed
qed

text \<open>
  Claim C9. \<^verbatim>\<open>parse_rgb\<close> returns black for \<^verbatim>\<open>None\<close>, for the empty string, and for
  every string that does not begin with \<^verbatim>\<open>rgb(\<close> or \<^verbatim>\<open>rgba(\<close> followed by three
  comma-separated decimal numbers. Such a sample is not skipped by the contrast rule:
  when the samples before it have sufficient contrast and black against its other colour
  is below 4.5:1, the rule reports it, with the ratio computed for black, as the one
  \<^verbatim>\<open>High\<close> finding \<^verbatim>\<open>Insufficient colour contrast\<close> of the page.
\<close>

theorem unparsable_is_black:
  "parse_rgb None = (0, 0, 0) \<and> parse_rgb (Some []) = (0, 0, 0) \<and>
   (\<not> rgb_form s \<longrightarrow> parse_rgb (Some s) = (0, 0, 0)) \<and>
   (unparsable (st_color item) \<and> (\<forall>x\<in>set pre. \<not> low_contrast x) \<and>
    contrast_ratio (0, 0, 0) (parse_rgb (st_bg item)) < 4.5 \<longrightarrow>
      issues_of (fst (rule_contrast dir F link pe (pre @ item # rest))) =
        [issue ''Insufficient colour contrast'' link
           (''Contrast '' @ fmt_2f F (contrast_ratio (0, 0, 0) (parse_rgb (st_bg item)))
              @ '':1 below 4.5:1 for text '' @ [CHR 0x27] @ st_text item @ [CHR 0x27] @ ''.'')
           ''High'' (Some (''screenshot_'' @ uuid_hex (pe_cap_contrast pe) @ ''_contrast.png''))]) \<and>
   (unparsable (st_bg item) \<and> (\<forall>x\<in>set pre. \<not> low_contrast x) \<and>
    contrast_ratio (parse_rgb (st_color item)) (0, 0, 0) < 4.5 \<longrightarrow>
      issues_of (fst (rule_contrast dir F link pe (pre @ item # rest))) =
        [issue ''Insufficient colour contrast'' link
           (''Contrast '' @ fmt_2f F (contrast_ratio (parse_rgb (st_color item)) (0, 0, 0))
              @ '':1 below 4.5:1 for text '' @ [CHR 0x27] @ st_text item @ [CHR 0x27] @ ''.'')
           ''High'' (Some (''screenshot_'' @ uuid_hex (pe_cap_contrast pe) @ ''_contrast.png''))])"
proof -
  have black: "parse_rgb (Some s) = (0, 0, 0)" if "\<not> rgb_form s"
    using that unparsable_black [of "Some s"] by (simp add: unparsable_def)
  have fg: "issues_of (fst (rule_contrast dir F link pe (pre @ item # rest))) =
        [issue ''Insufficient colour contrast'' link
           (''Contrast '' @ fmt_2f F (contrast_ratio (0, 0, 0) (parse_rgb (st_bg item)))
              @ '':1 below 4.5:1 for text '' @ [CHR 0x27] @ st_text item @ [CHR 0x27] @ ''.'')
           ''High'' (Some (''screenshot_'' @ uuid_hex (pe_cap_contrast pe) @ ''_contrast.png''))]"
    if "unparsable (st_color item)" "\<forall>x\<in>set pre. \<not> low_contrast x"
       "contrast_ratio (0, 0, 0) (parse_rgb (st_bg item)) < 4.5"
  proof -
    have p: "parse_rgb (st_color item) = (0, 0, 0)" using that(1) by (rule unparsable_black)
    have "low_contrast item" using that(3) by (simp add: low_contrast_def p)
    from contrast_first_offender [OF that(2) this, of dir F link pe rest]
    show ?thesis by (simp add: p)
  qed
  have bg: "issues_of (fst (rule_contrast dir F link pe (pre @ item # rest))) =
        [issue ''Insufficient colour contrast'' link
           (''Contrast '' @ fmt_2f F (contrast_ratio (parse_rgb (st_color item)) (0, 0, 0))
              @ '':1 below 4.5:1 for text '' @ [CHR 0x27] @ st_text item @ [CHR 0x27] @ ''.'')
           ''High'' (Some (''screenshot_'' @ uuid_hex (pe_cap_contrast pe) @ ''_contrast.png''))]"
    if "unparsable (st_bg item)" "\<forall>x\<in>set pre. \<not> low_contrast x"
       "contrast_ratio (parse_rgb (st_color item)) (0, 0, 0) < 4.5"
  proof -
    have p: "parse_rgb (st_bg item) = (0, 0, 0)" using that(1) by (rule unparsable_black)
    have "low_contrast item" using that(3) by (simp add: low_contrast_def p)
    from contrast_first_offender [OF that(2) this, of dir F link pe rest]
    show ?thesis by (simp add: p)
  qed
  have base: "parse_rgb None = (0, 0, 0)" "parse_rgb (Some []) = (0, 0, 0)"
    by (simp_all add: parse_rgb_def truthy_def)
  from base black fg bg show ?thesis by blast
qed

lemma red_not_rgb: "\<not> rgb_form ''red''"
proof
  assume "rgb_form ''red''"
  then have "rgb_match ''red'' \<noteq> None" by (rule rgb_match_complete)
  then show False by (simp add: rgb_match_def lit_def)
qed

lemma contrast_black_on_black: "contrast_ratio (0, 0, 0) (0, 0, 0) = 1"
  by (simp add: contrast_ratio_def luminance_black)


lemma parse_sample_colours:
  "parse_rgb (Some ''rgb(0, 0, 0)'') = (0, 0, 0)"
  "parse_rgb (Some ''rgb(255, 255, 255)'') = (255, 255, 255)"
  by (simp_all add: parse_rgb_def truthy_def rgb_match_def lit_def digits1_def spaces_def
      isdigit_def isspace_def Let_def digits_val_def digit_val_def)

lemma sample_item_contrast: "\<not> low_contrast (sample_item fs lh)"
proof -
  have "contrast_ratio (0, 0, 0) (255, 255, 255) = 21"
    by (simp add: contrast_ratio_def luminance_black luminance_white)
  then show ?thesis
    by (simp add: low_contrast_def sample_item_def parse_sample_colours)
qed

theorem unparsable_is_black_witness:
  "\<not> rgb_form ''red'' \<and> parse_rgb (Some ''red'') = (0, 0, 0) \<and>
   unparsable (st_color ((sample_item ''16px'' ''24px'')\<lparr>st_color := Some ''red'', st_bg := None\<rparr>)) \<and>
   \<not> low_contrast (sample_item ''16px'' ''24px'') \<and>
   contrast_ratio (0, 0, 0)
     (parse_rgb (st_bg ((sample_item ''16px'' ''24px'')\<lparr>st_color := Some ''red'', st_bg := None\<rparr>)))
     < 4.5 \<and>
   issues_of (fst (rule_contrast ''shots'' sample_formats ''http://a.test/''
     (sample_page (Inl ''unused''))
     ([sample_item ''16px'' ''24px''] @
      (sample_item ''16px'' ''24px'')\<lparr>st_color := Some ''red'', st_bg := None\<rparr> #
      [sample_item ''16px'' ''24px'']))) =
     [issue ''Insufficient colour contrast'' ''http://a.test/''
        (''Contrast #:1 below 4.5:1 for text '' @ [CHR 0x27] @ ''Body text'' @ [CHR 0x27] @ ''.'')
        ''High'' (Some ''screenshot_c8_contrast.png'')]"
proof -
  let ?odd = "(sample_item ''16px'' ''24px'')\<lparr>st_color := Some ''red'', st_bg := None\<rparr>"
  have u: "unparsable (st_color ?odd)" using red_not_rgb by (simp add: unparsable_def)
  have pre: "\<forall>x\<in>set [sample_item ''16px'' ''24px'']. \<not> low_contrast x"
    using sample_item_contrast by simp
  have bgp: "parse_rgb (st_bg ?odd) = (0, 0, 0)" by (simp add: parse_rgb_def truthy_def)
  have low: "contrast_ratio (0, 0, 0) (parse_rgb (st_bg ?odd)) < 4.5"
    unfolding bgp by (simp add: contrast_black_on_black)
  note t = unparsable_is_black [of "''red''" ?odd "[sample_item ''16px'' ''24px'']"
      "''shots''" sample_formats "''http://a.test/''" "sample_page (Inl ''unused'')"
      "[sample_item ''16px'' ''24px'']"]
  have parse: "parse_rgb (Some ''red'') = (0, 0, 0)"
    using t red_not_rgb by blast
  have found: "issues_of (fst (rule_contrast ''shots'' sample_formats ''http://a.test/''
     (sample_page (Inl ''unused'')) ([sample_item ''16px'' ''24px''] @ ?odd #
      [sample_item ''16px'' ''24px'']))) =
        [issue ''Insufficient colour contrast'' ''http://a.test/''
           (''Contrast '' @ fmt_2f sample_formats (contrast_ratio (0, 0, 0) (parse_rgb (st_bg ?odd)))
              @ '':1 below 4.5:1 for text '' @ [CHR 0x27] @ st_text ?odd @ [CHR 0x27] @ ''.'')
           ''High'' (Some (''screenshot_'' @ uuid_hex (pe_cap_contrast (sample_page (Inl ''unused'')))
              @ ''_contrast.png''))]"
    using t u pre low by blast
  show ?thesis
    unfolding found
    using red_not_rgb parse u sample_item_contrast low
    by (simp add: sample_formats_def sample_item_def sample_page_def sample_capture_def)
qed

lemma parse_rgb_example: "parse_rgb (Some ''rgba(12, 0 ,255, 0.5)'') = (12, 0, 255)"
  by (simp add: parse_rgb_def truthy_def rgb_match_def lit_def digits1_def spaces_def
      isdigit_def isspace_def Let_def digits_val_def digit_val_def)

lemma unparsable_sample_flagged:
  assumes "st_color item = None" and "st_bg item = None"
  shows "fst (contrast_loop F [item] [] None) \<noteq> []"
  using assms by (simp add: Let_def parse_rgb_def truthy_def contrast_black_on_black)


section \<open>Readability\<close>

lemma tight_condition_iff: "tight_condition lh fs \<longleftrightarrow> (0 < fs \<longrightarrow> lh \<noteq> 0)"
  by (auto simp: tight_condition_def)

lemma sample_item_metrics:
  "font_size (sample_item ''16px'' ''24px'') = 16"
  "line_height (sample_item ''16px'' ''24px'') 16 = 24"
  "font_size (sample_item ''16px'' ''0px'') = 16"
  "line_height (sample_item ''16px'' ''0px'') 16 = 0"
  by (simp_all add: font_size_def line_height_def sample_item_def number_chars_def py_float_def
      isdigit_def digits_val_def digit_val_def Let_def)


text \<open>
  Claim C1, as the code behaves. A sampled element with font size 16px and line height
  24px, whose line height is 1.5 times its font size, is reported as \<^verbatim>\<open>Tight line spacing\<close>;
  one with line height 0px, whose quotient is 0, is not. The condition of the code is the
  truth value of the quotient (it is non-zero), not the comparison with 1.2.
\<close>

theorem tight_spacing_misfires:
  "line_height (sample_item ''16px'' ''24px'') (font_size (sample_item ''16px'' ''24px''))
     / font_size (sample_item ''16px'' ''24px'') = 3 / 2 \<and>
   issues_of (fst (readability_loop ''shots'' sample_formats ''http://a.test/''
     (sample_page (Inl ''unused'')) [sample_item ''16px'' ''24px''])) =
     [issue ''Tight line spacing'' ''http://a.test/''
        (''Use line-height '' @ approx_sign @ '' 1.4 for comfortable reading.'') ''Low''
        (Some ''screenshot_c13_readability.png'')] \<and>
   line_height (sample_item ''16px'' ''0px'') (font_size (sample_item ''16px'' ''0px''))
     / font_size (sample_item ''16px'' ''0px'') = 0 \<and>
   issues_of (fst (readability_loop ''shots'' sample_formats ''http://a.test/''
     (sample_page (Inl ''unused'')) [sample_item ''16px'' ''0px''])) = []"
  by (simp add: sample_item_metrics tight_condition_def Let_def capture_rule_screenshot_def
      sample_page_def sample_capture_def)


section \<open>Evidence\<close>

lemma capture_failed_save:
  "save_raises ce \<Longrightarrow>
   capture_rule_screenshot dir ce rects rule_key label =
     (''screenshot_'' @ uuid_hex ce @ ''_'' @ rule_key @ ''.png'', [])"
  by (simp add: capture_rule_screenshot_def Let_def)

lemma files_of_simps [simp]:
  "files_of [] = []"
  "files_of (e # es) = file_of e @ files_of es"
  "files_of (a @ b) = files_of a @ files_of b"
  by (simp_all add: files_of_def)


text \<open>
  Claim C2, as the code behaves. On a visit of a page without title during which saving
  the rule screenshot fails, the title finding still carries the file name
  \<^verbatim>\<open>screenshot_c1_title.png\<close>, and no file of that name is written during the visit. (The
  page-level screenshot, by contrast, is recorded only once it is saved.)
\<close>

theorem evidence_without_file:
  "scan_page ''shots'' sample_formats ''http://a.test/''
     (sample_page (Inr (sample_soup None []))
        \<lparr>pe_cap_title := \<lparr>overlay_raises = False, uuid_hex = ''c1'', save_raises = True\<rparr>\<rparr>) =
     [Screenshot ''shots/screenshot_p0_page.png'' [],
      PageShot ''http://a.test/'' ''screenshot_p0_page.png'',
      Issue (issue ''Page title not descriptive'' ''http://a.test/''
               ''Provide a unique, descriptive <title> of at least 5 characters.'' ''High''
               (Some ''screenshot_c1_title.png'')),
      SetTitle ''http://a.test/'' [],
      SetNav ''http://a.test/'' []] \<and>
   path_join ''shots'' ''screenshot_c1_title.png'' \<notin> set (files_of
     (scan_page ''shots'' sample_formats ''http://a.test/''
        (sample_page (Inr (sample_soup None []))
           \<lparr>pe_cap_title := \<lparr>overlay_raises = False, uuid_hex = ''c1'', save_raises = True\<rparr>\<rparr>)))"
proof -
  have run: "scan_page ''shots'' sample_formats ''http://a.test/''
     (sample_page (Inr (sample_soup None []))
        \<lparr>pe_cap_title := \<lparr>overlay_raises = False, uuid_hex = ''c1'', save_raises = True\<rparr>\<rparr>) =
     [Screenshot ''shots/screenshot_p0_page.png'' [],
      PageShot ''http://a.test/'' ''screenshot_p0_page.png'',
      Issue (issue ''Page title not descriptive'' ''http://a.test/''
               ''Provide a unique, descriptive <title> of at least 5 characters.'' ''High''
               (Some ''screenshot_c1_title.png'')),
      SetTitle ''http://a.test/'' [],
      SetNav ''http://a.test/'' []]"
    by (simp add: sample_page_def sample_soup_def sample_capture_def
      sample_formats_def scan_page_def page_body_def page_rules_def later_steps_def
      page_screenshot_def Let_def seq_def seqs_def script_def ok_def raise_def fire_def
      path_join_def rule_title_def rule_headings_def rule_responsive_def
      rule_contrast_def rule_keyboard_def rule_nav_def rule_feedback_def rule_performance_def
      page_title_def capture_rule_screenshot_def truthy_def nav_signature_def)
  show ?thesis unfolding run by (simp add: path_join_def)
qed

section \<open>Dead links\<close>

lemma seq_ok_nil [simp]: "seq (ok []) s = s"
  by (cases s) (simp add: seq_def ok_def)

lemma seq_assoc: "seq (seq a b) c = seq a (seq b c)"
  by (cases a; cases b; cases c) (auto simp: seq_def split: option.splits)

lemma link_text_never_raises: "snd (link_text_check dir link a) = None"
  by (simp add: link_text_check_def Let_def split: sum.splits)

lemma anchors_passing:
  "\<forall>b\<in>set pre. passes b \<Longrightarrow>
   anchors_loop dir link (pre @ xs) = seq (anchors_loop dir link pre) (anchors_loop dir link xs) \<and>
   snd (anchors_loop dir link pre) = None"
proof (induction pre)
  case Nil
  then show ?case by simp
next
  case (Cons b pre)
  then have b: "\<not> href_empty b" and "\<exists>u st. a_fetch b = Inr (u, st) \<and> st < 400"
    by (auto simp: passes_def split: sum.splits)
  then obtain u st where f: "a_fetch b = Inr (u, st)" "st < 400" by blast
  from Cons have IH: "anchors_loop dir link (pre @ xs) =
      seq (anchors_loop dir link pre) (anchors_loop dir link xs)"
    "snd (anchors_loop dir link pre) = None" by simp_all
  show ?case
    using b f IH by (simp add: seq_assoc snd_seq link_text_never_raises)
qed

lemma str_int_404: "str_int 404 = ''404''"
  by code_simp

lemma sample_anchor_ok: "\<not> href_empty (sample_anchor ''/gone'' f t x)"
  by (simp add: href_empty_def sample_anchor_def truthy_def)


text \<open>
  What the loop does with the answer of the liveness check, whatever produces it. Let
  the loop reach an anchor with a non-empty target (every anchor before it has one too
  and answered with a status below 400). If the check hands back a status of at least
  400 and the script that locates the anchor returns, one \<^verbatim>\<open>High\<close> finding
  \<^verbatim>\<open>Broken link detected\<close> with description \<^verbatim>\<open>Link returns HTTP <status>: <url>\<close> is
  appended. If the check raises and the locating script run by the handler returns, one
  \<^verbatim>\<open>High\<close> finding with description \<^verbatim>\<open>Failed to open: <href>\<close> is appended. In both
  cases the loop stops.
\<close>

lemma liveness_check_branches:
  assumes "\<forall>b\<in>set pre. passes b" and "\<not> href_empty a"
  shows "(a_fetch a = Inr (u, status) \<and> 400 \<le> status \<and> a_locate_try a = Inr r \<longrightarrow>
            anchors_loop dir link (pre @ a # rest) = anchors_loop dir link (pre @ [a]) \<and>
            snd (anchors_loop dir link (pre @ a # rest)) = None \<and>
            issues_of (fst (anchors_loop dir link (pre @ a # rest))) =
              issues_of (fst (anchors_loop dir link pre)) @
              issues_of (fst (link_text_check dir link a)) @
              [issue ''Broken link detected'' link
                 (''Link returns HTTP '' @ str_int status @ '': '' @ u) ''High''
                 (Some (''screenshot_'' @ uuid_hex (a_cap_http a) @ ''_links.png''))] \<and>
            sublist (str_int status) (''Link returns HTTP '' @ str_int status @ '': '' @ u)) \<and>
         (a_fetch a = Inl e \<and> a_locate_exc a = Inr r \<longrightarrow>
            anchors_loop dir link (pre @ a # rest) = anchors_loop dir link (pre @ [a]) \<and>
            snd (anchors_loop dir link (pre @ a # rest)) = None \<and>
            issues_of (fst (anchors_loop dir link (pre @ a # rest))) =
              issues_of (fst (anchors_loop dir link pre)) @
              issues_of (fst (link_text_check dir link a)) @
              [issue ''Broken link detected'' link (''Failed to open: '' @ the (a_href a)) ''High''
                 (Some (''screenshot_'' @ uuid_hex (a_cap_fail a) @ ''_links.png''))])"
proof -
  note pre = anchors_passing [OF assms(1), of dir link]
  have shot: "fst (capture_rule_screenshot dir ce rs ''links'' l) =
      ''screenshot_'' @ uuid_hex ce @ ''_links.png''" for ce rs l
    by (simp add: capture_rule_screenshot_def Let_def)
  have http: "anchors_loop dir link (a # xs) =
      seq (link_text_check dir link a)
        (fire (capture_rule_screenshot dir (a_cap_http a) (rect_list r) ''links'' (Some ''Broken link''))
           (\<lambda>shot. issue ''Broken link detected'' link
              (''Link returns HTTP '' @ str_int status @ '': '' @ u) ''High'' (Some shot)))"
    if "a_fetch a = Inr (u, status)" "400 \<le> status" "a_locate_try a = Inr r" for xs
    using that assms(2) by simp
  have failed: "anchors_loop dir link (a # xs) =
      seq (link_text_check dir link a)
        (fire (capture_rule_screenshot dir (a_cap_fail a) (rect_list r) ''links'' (Some ''Broken link''))
           (\<lambda>shot. issue ''Broken link detected'' link
              (''Failed to open: '' @ the (a_href a)) ''High'' (Some shot)))"
    if "a_fetch a = Inl e" "a_locate_exc a = Inr r" for xs
    using that assms(2) by (simp add: failed_to_open_def script_def)
  have sub: "sublist (str_int status) (''Link returns HTTP '' @ str_int status @ '': '' @ u)"
    by (rule sublist_appendI)
  have P1: "\<And>xs. anchors_loop dir link (pre @ xs) =
      seq (anchors_loop dir link pre) (anchors_loop dir link xs)"
    and P2: "snd (anchors_loop dir link pre) = None"
    using pre by simp_all
  show ?thesis
  proof (intro conjI impI)
    assume "a_fetch a = Inr (u, status) \<and> 400 \<le> status \<and> a_locate_try a = Inr r"
    then have H: "\<And>xs. anchors_loop dir link (a # xs) =
      seq (link_text_check dir link a)
        (fire (capture_rule_screenshot dir (a_cap_http a) (rect_list r) ''links'' (Some ''Broken link''))
           (\<lambda>shot. issue ''Broken link detected'' link
              (''Link returns HTTP '' @ str_int status @ '': '' @ u) ''High'' (Some shot)))"
      using http by blast
    show "anchors_loop dir link (pre @ a # rest) = anchors_loop dir link (pre @ [a])"
      unfolding P1 H by (rule refl)
    show "snd (anchors_loop dir link (pre @ a # rest)) = None"
      unfolding P1 H by (simp add: snd_seq P2 link_text_never_raises)
    show "issues_of (fst (anchors_loop dir link (pre @ a # rest))) =
              issues_of (fst (anchors_loop dir link pre)) @
              issues_of (fst (link_text_check dir link a)) @
              [issue ''Broken link detected'' link
                 (''Link returns HTTP '' @ str_int status @ '': '' @ u) ''High''
                 (Some (''screenshot_'' @ uuid_hex (a_cap_http a) @ ''_links.png''))]"
      unfolding P1 H by (simp add: fst_seq P2 link_text_never_raises shot)
    show "sublist (str_int status) (''Link returns HTTP '' @ str_int status @ '': '' @ u)"
      by (rule sub)
  next
    assume "a_fetch a = Inl e \<and> a_locate_exc a = Inr r"
    then have H: "\<And>xs. anchors_loop dir link (a # xs) =
      seq (link_text_check dir link a)
        (fire (capture_rule_screenshot dir (a_cap_fail a) (rect_list r) ''links'' (Some ''Broken link''))
           (\<lambda>shot. issue ''Broken link detected'' link
              (''Failed to open: '' @ the (a_href a)) ''High'' (Some shot)))"
      using failed by blast
    show "anchors_loop dir link (pre @ a # rest) = anchors_loop dir link (pre @ [a])"
      unfolding P1 H by (rule refl)
    show "snd (anchors_loop dir link (pre @ a # rest)) = None"
      unfolding P1 H by (simp add: snd_seq P2 link_text_never_raises)
    show "issues_of (fst (anchors_loop dir link (pre @ a # rest))) =
              issues_of (fst (anchors_loop dir link pre)) @
              issues_of (fst (link_text_check dir link a)) @
              [issue ''Broken link detected'' link (''Failed to open: '' @ the (a_href a)) ''High''
                 (Some (''screenshot_'' @ uuid_hex (a_cap_fail a) @ ''_links.png''))]"
      unfolding P1 H by (simp add: fst_seq P2 link_text_never_raises shot)
  qed
qed

lemma sample_anchor_fields:
  "a_href (sample_anchor h f t x) = Some h" "a_fetch (sample_anchor h f t x) = f"
  "a_locate_try (sample_anchor h f t x) = t" "a_locate_exc (sample_anchor h f t x) = x"
  "uuid_hex (a_cap_http (sample_anchor h f t x)) = ''a3''"
  "uuid_hex (a_cap_fail (sample_anchor h f t x)) = ''a4''"
  by (simp_all add: sample_anchor_def sample_capture_def)

lemma sample_anchor_text:
  "issues_of (fst (link_text_check d l (sample_anchor h f t x))) = []"
  by (simp add: link_text_check_def sample_anchor_def strip_def isspace_def lower_def
      lower_char_def Let_def)

text \<open>
  The locating scripts are not guarded: when the one in the handler raises, no finding
  is appended and the exception leaves the loop.
\<close>

lemma locating_script_failure:
  "a_fetch (sample_anchor ''/gone'' (Inr (''http://a.test/gone'', 404))
              (Inl ''invalid selector'') (Inl ''invalid selector''))
     = Inr (''http://a.test/gone'', 404) \<and>
   anchors_loop ''shots'' ''http://a.test/''
     [sample_anchor ''/gone'' (Inr (''http://a.test/gone'', 404))
        (Inl ''invalid selector'') (Inl ''invalid selector'')]
     = ([], Some ''invalid selector'') \<and>
   anchors_loop ''shots'' ''http://a.test/''
     [sample_anchor ''/gone'' (Inl ''timed out'') (Inr None) (Inl ''invalid selector'')]
     = ([], Some ''invalid selector'')"
  by (simp add: sample_anchor_def href_empty_def truthy_def link_text_check_def strip_def
      isspace_def lower_def lower_char_def Let_def failed_to_open_def script_def seq_def ok_def
      raise_def)



lemma urlopen_status_branch_dead: "urlopen u s r = Inr (u', s') \<Longrightarrow> s' < 400"
  by (auto simp: urlopen_def split: if_splits)

lemma urlopen_error: "400 \<le> s \<Longrightarrow> urlopen u s r = Inl (''HTTP Error '' @ str_int s @ '': '' @ r)"
  by (simp add: urlopen_def)

lemma http_error_reported_as_failure:
  assumes "\<not> href_empty a" and "a_fetch a = urlopen u s r" and "400 \<le> s"
    and "a_locate_exc a = Inr rect"
  shows "issues_of (fst (anchors_loop dir link (a # rest))) =
     issues_of (fst (link_text_check dir link a)) @
     [issue ''Broken link detected'' link (''Failed to open: '' @ the (a_href a)) ''High''
        (Some (''screenshot_'' @ uuid_hex (a_cap_fail a) @ ''_links.png''))]"
proof -
  have f: "a_fetch a = Inl (''HTTP Error '' @ str_int s @ '': '' @ r)"
    using assms(2,3) by (simp add: urlopen_error)
  have shot: "fst (capture_rule_screenshot dir ce rs ''links'' l) =
      ''screenshot_'' @ uuid_hex ce @ ''_links.png''" for ce rs l
    by (simp add: capture_rule_screenshot_def Let_def)
  show ?thesis
    using assms(1,4) f
    by (simp add: failed_to_open_def script_def fst_seq link_text_never_raises shot)
qed

text \<open>
  Claim C8, as the code behaves. For an anchor whose target answers HTTP 404, the
  liveness check raises (the opener turns every answer outside 200..299 into an
  exception), so the branch that would report the status is never taken: the finding
  appended is \<^verbatim>\<open>Broken link detected\<close> with description \<^verbatim>\<open>Failed to open: /gone\<close>, which
  does not contain the status code.
\<close>

theorem dead_link_status_lost:
  "a_fetch (sample_anchor ''/gone'' (urlopen ''http://a.test/gone'' 404 ''Not Found'')
              (Inr None) (Inr None))
     = Inl ''HTTP Error 404: Not Found'' \<and>
   issues_of (fst (anchors_loop ''shots'' ''http://a.test/''
     [sample_anchor ''/gone'' (urlopen ''http://a.test/gone'' 404 ''Not Found'')
        (Inr None) (Inr None)])) =
     [issue ''Broken link detected'' ''http://a.test/'' ''Failed to open: /gone'' ''High''
        (Some ''screenshot_a4_links.png'')] \<and>
   \<not> sublist ''404'' ''Failed to open: /gone''"
proof -
  have u: "urlopen ''http://a.test/gone'' 404 ''Not Found'' = Inl ''HTTP Error 404: Not Found''"
    by (simp add: urlopen_def str_int_404)
  have run: "issues_of (fst (anchors_loop ''shots'' ''http://a.test/''
     [sample_anchor ''/gone'' (Inl ''HTTP Error 404: Not Found'') (Inr None) (Inr None)])) =
     [issue ''Broken link detected'' ''http://a.test/'' ''Failed to open: /gone'' ''High''
        (Some ''screenshot_a4_links.png'')]"
    using sample_anchor_ok [of "Inl ''HTTP Error 404: Not Found''" "Inr None" "Inr None"]
    by (simp add: sample_anchor_fields fst_seq sample_anchor_text failed_to_open_def script_def
        capture_rule_screenshot_def Let_def link_text_never_raises)
  have no: "\<not> sublist ''404'' ''Failed to open: /gone''"
    by (simp add: sublist_code prefix_code)
  show ?thesis unfolding u using run no by (simp add: sample_anchor_fields)
qed

section \<open>Cross-page checks\<close>

lemma dict_set_fst: "fst ` set (dict_set k v d) = insert k (fst ` set d)"
proof (induction d)
  case Nil
  then show ?case by simp
next
  case (Cons x d)
  obtain k' v' where x: "x = (k', v')" by (cases x)
  show ?case
  proof (cases "k' = k")
    case True
    then show ?thesis using x by simp
  next
    case False
    then show ?thesis using x Cons by (simp add: insert_commute)
  qed
qed

lemma dict_set_distinct: "distinct (map fst d) \<Longrightarrow> distinct (map fst (dict_set k v d))"
  by (induction d) (auto simp: dict_set_fst)

lemma foldl_set_title_distinct:
  "distinct (map fst d) \<Longrightarrow> distinct (map fst (foldl set_title d es))"
proof (induction es arbitrary: d)
  case Nil
  then show ?case by simp
next
  case (Cons e es)
  then show ?case by (cases e) (simp_all add: dict_set_distinct)
qed

lemma foldl_set_nav_distinct:
  "distinct (map fst d) \<Longrightarrow> distinct (map fst (foldl set_nav d es))"
proof (induction es arbitrary: d)
  case Nil
  then show ?case by simp
next
  case (Cons e es)
  then show ?case by (cases e) (simp_all add: dict_set_distinct)
qed

lemma title_map_distinct: "distinct (map fst (title_map_of es))"
  by (simp add: title_map_of_def foldl_set_title_distinct)

lemma nav_signatures_distinct: "distinct (map fst (nav_signatures_of es))"
  by (simp add: nav_signatures_of_def foldl_set_nav_distinct)

lemma count_values: "0 < count_list (map snd d) t \<longleftrightarrow> (\<exists>q. (q, t) \<in> set d)"
proof (induction d)
  case Nil
  then show ?case by simp
next
  case (Cons x d)
  obtain k v where x: "x = (k, v)" by (cases x)
  show ?case unfolding x using Cons by (cases "v = t") auto
qed

lemma key_absent: "page \<notin> fst ` set d \<Longrightarrow> (q, t) \<in> set d \<Longrightarrow> q \<noteq> page"
  by (auto simp: image_iff)

lemma count_shared_head:
  assumes "page \<notin> fst ` set d"
  shows "1 < count_list (map snd ((page, t) # d)) t \<longleftrightarrow>
         (\<exists>q. q \<noteq> page \<and> (q, t) \<in> set ((page, t) # d))"
proof -
  have "1 < count_list (map snd ((page, t) # d)) t \<longleftrightarrow> 0 < count_list (map snd d) t"
    by simp
  also have "\<dots> \<longleftrightarrow> (\<exists>q. (q, t) \<in> set d)" by (rule count_values)
  also have "\<dots> \<longleftrightarrow> (\<exists>q. q \<noteq> page \<and> (q, t) \<in> set ((page, t) # d))"
  proof
    assume "\<exists>q. (q, t) \<in> set d"
    then obtain q where q: "(q, t) \<in> set d" ..
    then have "q \<noteq> page" using key_absent [OF assms] by blast
    with q show "\<exists>q. q \<noteq> page \<and> (q, t) \<in> set ((page, t) # d)" by auto
  next
    assume "\<exists>q. q \<noteq> page \<and> (q, t) \<in> set ((page, t) # d)"
    then show "\<exists>q. (q, t) \<in> set d" by auto
  qed
  finally show ?thesis .
qed

lemma count_shared_tail:
  assumes "k \<noteq> page" and "(page, t) \<in> set d"
    and IH: "1 < count_list (map snd d) t \<longleftrightarrow> (\<exists>q. q \<noteq> page \<and> (q, t) \<in> set d)"
  shows "1 < count_list (map snd ((k, v) # d)) t \<longleftrightarrow>
         (\<exists>q. q \<noteq> page \<and> (q, t) \<in> set ((k, v) # d))"
proof (cases "v = t")
  case True
  have pos: "0 < count_list (map snd d) t" unfolding count_values using assms(2) by (rule exI)
  have "1 < count_list (map snd ((k, v) # d)) t" using True pos by simp
  moreover have "k \<noteq> page \<and> (k, t) \<in> set ((k, v) # d)" using True assms(1) by simp
  then have "\<exists>q. q \<noteq> page \<and> (q, t) \<in> set ((k, v) # d)" ..
  ultimately show ?thesis by blast
next
  case False
  have c: "count_list (map snd ((k, v) # d)) t = count_list (map snd d) t"
    using False by simp
  have s: "\<And>q. (q, t) \<in> set ((k, v) # d) \<longleftrightarrow> (q, t) \<in> set d"
    using False by auto
  show ?thesis unfolding c s by (rule IH)
qed


lemma count_shared:
  assumes "distinct (map fst d)" and "(page, t) \<in> set d"
  shows "1 < count_list (map snd d) t \<longleftrightarrow> (\<exists>q. q \<noteq> page \<and> (q, t) \<in> set d)"
  using assms
proof (induction d)
  case Nil
  then show ?case by simp
next
  case (Cons x d)
  obtain k v where x: "x = (k, v)" by (cases x)
  have k: "k \<notin> fst ` set d" and dd: "distinct (map fst d)"
    using Cons.prems(1) unfolding x by simp_all
  have mem: "(page, t) = (k, v) \<or> (page, t) \<in> set d"
    using Cons.prems(2) unfolding x by simp
  show ?case
  proof (cases "k = page")
    case True
    have "(page, t) \<notin> set d" using key_absent [OF k, of page t] True by blast
    with mem True have "x = (page, t)" unfolding x by simp
    then show ?thesis using count_shared_head [of page d t] k True by simp
  next
    case False
    with mem have in_d: "(page, t) \<in> set d" by simp
    show ?thesis
      unfolding x by (rule count_shared_tail [OF False in_d Cons.IH [OF dd in_d]])
  qed
qed

lemma per_page_absent:
  "page \<notin> fst ` set d \<Longrightarrow>
   filter (\<lambda>f. named n f \<and> page_url f = page)
     (concat (map (\<lambda>(p, t). if C t then [issue n p ds sv None] else []) d)) = []"
  by (induction d) (auto simp: issue_def)

lemma per_page_entry:
  assumes "distinct (map fst d)" and "(page, t) \<in> set d"
  shows "filter (\<lambda>f. named n f \<and> page_url f = page)
           (concat (map (\<lambda>(p, t). if C t then [issue n p ds sv None] else []) d)) =
         (if C t then [issue n page ds sv None] else [])"
  using assms
proof (induction d)
  case Nil
  then show ?case by simp
next
  case (Cons x d)
  obtain k v where x: "x = (k, v)" by (cases x)
  show ?case
  proof (cases "k = page")
    case True
    then have "v = t" and "page \<notin> fst ` set d"
      using Cons.prems x by (auto simp: image_iff)
    then show ?thesis
      using True x per_page_absent [of page d n C ds sv]
      by (simp add: issue_def named_def)
  next
    case False
    then have "(page, t) \<in> set d" using Cons.prems x by auto
    then show ?thesis using False x Cons by (simp add: issue_def)
  qed
qed

lemma listed_not_cross:
  "listed link f \<Longrightarrow> \<not> named ''Non-unique page title'' f \<and> \<not> named ''Inconsistent navigation'' f"
  by (auto simp: listed_def later_rules_def named_def)

lemma scan_page_not_cross:
  assumes "f \<in> set (issues_of (scan_page dir F link pe))"
  shows "\<not> named ''Non-unique page title'' f \<and> \<not> named ''Inconsistent navigation'' f"
proof -
  from assms consider "f \<in> set (issues_of (fst (page_body dir F link pe)))"
    | e where "f = issue ''Page load error'' link e ''High'' None"
    unfolding scan_page_issues by (auto split: option.splits)
  then show ?thesis
  proof cases
    case 1
    then show ?thesis
      using body_issue_kinds [of f dir F link pe] listed_not_cross [of link f]
      by (auto simp: named_def issue_def)
  next
    case 2
    then show ?thesis by (simp add: named_def issue_def)
  qed
qed

lemma scan_loop_not_cross:
  "f \<in> set (issues_of (scan_loop dir F visits)) \<Longrightarrow>
   \<not> named ''Non-unique page title'' f \<and> \<not> named ''Inconsistent navigation'' f"
  by (induction visits) (auto dest: scan_page_not_cross)

lemma run_scan_issues:
  "run_scan w visits dir = Inr (issues, shots) \<Longrightarrow>
   issues = issues_of (scan_loop dir (fmt w) visits) @
            duplicate_titles (title_map_of (scan_loop dir (fmt w) visits)) @
            inconsistent_navigation (slot w) (nav_signatures_of (scan_loop dir (fmt w) visits))"
  by (auto simp: run_scan_def Let_def split: option.splits)

lemma duplicate_titles_per_page:
  assumes "distinct (map fst tm)" and "(page, t) \<in> set tm"
  shows "filter (\<lambda>f. named ''Non-unique page title'' f \<and> page_url f = page) (duplicate_titles tm) =
     (if t \<noteq> [] \<and> (\<exists>q. q \<noteq> page \<and> (q, t) \<in> set tm)
      then [issue ''Non-unique page title'' page
              ''Each page should have a unique, descriptive title.'' ''Medium'' None]
      else [])"
proof (cases "1 < length tm")
  case True
  have cond: "t' \<in> set (filter (\<lambda>t. t \<noteq> [] \<and> 1 < count_list (map snd tm) t) (map snd tm)) \<longleftrightarrow>
      t' \<noteq> [] \<and> 1 < count_list (map snd tm) t'" for t'
    using count_list_0_iff [of "map snd tm" t'] by auto
  have "duplicate_titles tm =
      concat (map (\<lambda>(p, t). if t \<noteq> [] \<and> 1 < count_list (map snd tm) t
         then [issue ''Non-unique page title'' p
                 ''Each page should have a unique, descriptive title.'' ''Medium'' None]
         else []) tm)"
    unfolding duplicate_titles_def Let_def cond using True by simp
  then show ?thesis
    using per_page_entry [OF assms, of "''Non-unique page title''"
        "\<lambda>t. t \<noteq> [] \<and> 1 < count_list (map snd tm) t"]
      count_shared [OF assms]
    by simp
next
  case False
  then have "length tm \<le> 1" by simp
  with assms(2) have "tm = [(page, t)]"
    by (cases tm) auto
  then show ?thesis by (simp add: duplicate_titles_def)
qed


text \<open>
  Claim C6, amended. In the list that \<^verbatim>\<open>run_scan\<close> returns, a page whose recorded title
  is not empty and is also the recorded title of another page has exactly one finding
  \<^verbatim>\<open>Non-unique page title\<close>, of severity \<^verbatim>\<open>Medium\<close> and without evidence; a page whose
  title is empty, or is the title of no other page, has none. (A second page with the
  same title exists only when more than one page was recorded.)
\<close>

theorem duplicate_titles_flagged:
  assumes "run_scan w visits dir = Inr (issues, shots)"
    and "(page, t) \<in> set (title_map_of (scan_loop dir (fmt w) visits))"
  shows "filter (\<lambda>f. named ''Non-unique page title'' f \<and> page_url f = page) issues =
     (if t \<noteq> [] \<and> (\<exists>q. q \<noteq> page \<and> (q, t) \<in> set (title_map_of (scan_loop dir (fmt w) visits)))
      then [issue ''Non-unique page title'' page
              ''Each page should have a unique, descriptive title.'' ''Medium'' None]
      else [])"
proof -
  let ?es = "scan_loop dir (fmt w) visits"
  have a: "filter (\<lambda>f. named ''Non-unique page title'' f \<and> page_url f = page) (issues_of ?es) = []"
    using scan_loop_not_cross [of _ dir "fmt w" visits] by (intro filter_none) blast
  have c: "filter (\<lambda>f. named ''Non-unique page title'' f \<and> page_url f = page)
      (inconsistent_navigation (slot w) (nav_signatures_of ?es)) = []"
    using inconsistent_navigation_shape [of _ "slot w" "nav_signatures_of ?es"]
    by (intro filter_none) (auto simp: named_def)
  show ?thesis
    unfolding run_scan_issues [OF assms(1)] filter_append a c
    using duplicate_titles_per_page [OF title_map_distinct assms(2)] by simp
qed


lemma seq_ok_ok: "seq (ok a) (ok b) = ok (a @ b)"
  by (simp add: seq_def ok_def)

lemma sample_page_fields:
  "pe_get (sample_page sp) = None" "pe_soup (sample_page sp) = sp"
  "pe_style (sample_page sp) = Inr []" "pe_page_uuid (sample_page sp) = ''p0''"
  "pe_page_save_raises (sample_page sp) = False" "pe_mq (sample_page sp) = Inr (Some 2)"
  "pe_kb (sample_page sp) = Inr (Some \<lparr>tabbables = 3, blocked = 0\<rparr>)"
  "pe_perf (sample_page sp) = Inr (Some 250)"
  "pe_cap_title (sample_page sp) = sample_capture ''c1''"
  by (simp_all add: sample_page_def)

lemma sample_soup_fields:
  "sp_title (sample_soup t nav) = t" "sp_levels (sample_soup t nav) = [1]"
  "sp_imgs (sample_soup t nav) = []" "sp_viewport_meta (sample_soup t nav)"
  "sp_anchors (sample_soup t nav) = []" "sp_forms (sample_soup t nav) = []"
  "sp_nav_links (sample_soup t nav) = nav" "sp_role_alert (sample_soup t nav)"
  by (simp_all add: sample_soup_def)

lemma sample_later_steps:
  "seqs (later_steps dir F link (sample_page sp) (sample_soup t nav) []) =
     ok [SetNav link (nav_signature (sample_soup t nav))]"
proof -
  have "rule_headings dir link (sample_page sp) (sample_soup t nav) = ok []"
    by (simp add: rule_headings_def sample_soup_fields seq_ok_ok)
  moreover have "rule_responsive dir link (sample_page sp) (sample_soup t nav) = ok []"
    by (simp add: rule_responsive_def sample_soup_fields sample_page_fields script_def seq_ok_ok)
  moreover have "rule_contrast dir F link (sample_page sp) [] = ok []"
    by (simp add: rule_contrast_def)
  moreover have "rule_keyboard dir link (sample_page sp) = ok []"
    by (simp add: rule_keyboard_def sample_page_fields script_def seq_ok_ok)
  moreover have "rule_feedback dir link (sample_page sp) (sample_soup t nav) = ok []"
    by (simp add: rule_feedback_def sample_soup_fields)
  moreover have "rule_performance dir F link (sample_page sp) = ok []"
    by (simp add: rule_performance_def sample_page_fields script_def)
  ultimately show ?thesis
    by (simp add: later_steps_def seqs_Cons seqs_Nil sample_soup_fields rule_nav_def seq_ok_ok)
qed

lemma sample_visit_shape:
  "scan_page ''shots'' F link (sample_page (Inr (sample_soup t nav))) =
     [Screenshot ''shots/screenshot_p0_page.png'' [], PageShot link ''screenshot_p0_page.png''] @
     fst (rule_title ''shots'' link (sample_page (Inr (sample_soup t nav))) (sample_soup t nav)) @
     [SetNav link (nav_signature (sample_soup t nav))]"
proof -
  have shot: "page_screenshot ''shots'' link (sample_page (Inr (sample_soup t nav))) =
      ok [Screenshot ''shots/screenshot_p0_page.png'' [], PageShot link ''screenshot_p0_page.png'']"
    by (simp add: page_screenshot_def sample_page_fields path_join_def Let_def)
  have body: "page_body ''shots'' F link (sample_page (Inr (sample_soup t nav))) =
      seq (ok [Screenshot ''shots/screenshot_p0_page.png'' [], PageShot link ''screenshot_p0_page.png''])
        (seq (rule_title ''shots'' link (sample_page (Inr (sample_soup t nav))) (sample_soup t nav))
           (ok [SetNav link (nav_signature (sample_soup t nav))]))"
    by (simp add: page_body_def sample_page_fields shot script_def page_rules_def seqs_Cons
        sample_later_steps)
  have "snd (page_body ''shots'' F link (sample_page (Inr (sample_soup t nav)))) = None"
    unfolding body by (simp add: snd_seq title_never_raises)
  moreover have "fst (page_body ''shots'' F link (sample_page (Inr (sample_soup t nav)))) =
     [Screenshot ''shots/screenshot_p0_page.png'' [], PageShot link ''screenshot_p0_page.png''] @
     fst (rule_title ''shots'' link (sample_page (Inr (sample_soup t nav))) (sample_soup t nav)) @
     [SetNav link (nav_signature (sample_soup t nav))]"
    unfolding body by (simp add: fst_seq title_never_raises)
  ultimately show ?thesis
    by (cases "page_body ''shots'' F link (sample_page (Inr (sample_soup t nav)))")
       (simp add: scan_page_def)
qed

lemma titled_effects:
  "length t \<ge> 5 \<Longrightarrow> strip t = t \<Longrightarrow>
   fst (rule_title dir link pe (sample_soup (Some (Some t)) nav)) = [SetTitle link t]"
  by (auto simp: rule_title_def page_title_def sample_soup_fields Let_def seq_ok_ok)

lemma untitled_effects:
  "fst (rule_title ''shots'' link (sample_page sp) (sample_soup None nav)) =
     [Screenshot ''shots/screenshot_c1_title.png''
        [\<lparr>r_left = 10, r_top = 10, r_width = 300, r_height = 30, r_label = Some ''Page title''\<rparr>],
      Issue (issue ''Page title not descriptive'' link
               ''Provide a unique, descriptive <title> of at least 5 characters.'' ''High''
               (Some ''screenshot_c1_title.png'')),
      SetTitle link []]"
  by (simp add: rule_title_def page_title_def sample_soup_fields sample_page_fields Let_def
      fst_seq capture_rule_screenshot_def sample_capture_def truthy_def path_join_def)

lemma sample_visit:
  "length t \<ge> 5 \<Longrightarrow> strip t = t \<Longrightarrow>
   scan_page ''shots'' F link (sample_page (Inr (sample_soup (Some (Some t)) nav))) =
     [Screenshot ''shots/screenshot_p0_page.png'' [], PageShot link ''screenshot_p0_page.png'',
      SetTitle link t, SetNav link (nav_signature (sample_soup (Some (Some t)) nav))]"
  by (simp add: sample_visit_shape titled_effects)

lemma strip_plain:
  "strip ''Shared title'' = ''Shared title''" "strip ''Unique title'' = ''Unique title''"
  "strip ''Alpha page'' = ''Alpha page''" "strip ''Beta page'' = ''Beta page''"
  "strip ''Gamma page'' = ''Gamma page''"
  by (simp_all add: strip_def isspace_def)

lemma sample_signatures:
  "nav_signature (sample_soup t []) = []"
  "nav_signature (sample_soup t [''Home'', ''About'']) = ''Home|About''"
  "nav_signature (sample_soup t [''Home'', ''Blog'']) = ''Home|Blog''"
  by (simp_all add: nav_signature_def sample_soup_def join_bar_def)

lemma shared_titles_effects:
  "scan_loop ''shots'' sample_formats shared_titles_scan =
     [Screenshot ''shots/screenshot_p0_page.png'' [],
      PageShot ''http://a.test/1'' ''screenshot_p0_page.png'',
      SetTitle ''http://a.test/1'' ''Shared title'', SetNav ''http://a.test/1'' [],
      Screenshot ''shots/screenshot_p0_page.png'' [],
      PageShot ''http://a.test/2'' ''screenshot_p0_page.png'',
      SetTitle ''http://a.test/2'' ''Shared title'', SetNav ''http://a.test/2'' [],
      Screenshot ''shots/screenshot_p0_page.png'' [],
      PageShot ''http://a.test/3'' ''screenshot_p0_page.png'',
      SetTitle ''http://a.test/3'' ''Unique title'', SetNav ''http://a.test/3'' []]"
  by (simp add: shared_titles_scan_def sample_visit strip_plain sample_signatures)

lemma shared_titles_map:
  "title_map_of (scan_loop ''shots'' sample_formats shared_titles_scan) =
     [(''http://a.test/1'', ''Shared title''), (''http://a.test/2'', ''Shared title''),
      (''http://a.test/3'', ''Unique title'')]"
  unfolding shared_titles_effects by (simp add: title_map_of_def)

lemma shared_titles_run:
  "run_scan sample_world shared_titles_scan ''shots'' =
     Inr ([issue ''Non-unique page title'' ''http://a.test/1''
             ''Each page should have a unique, descriptive title.'' ''Medium'' None,
           issue ''Non-unique page title'' ''http://a.test/2''
             ''Each page should have a unique, descriptive title.'' ''Medium'' None],
          [(''http://a.test/1'', ''screenshot_p0_page.png''),
           (''http://a.test/2'', ''screenshot_p0_page.png''),
           (''http://a.test/3'', ''screenshot_p0_page.png'')])"
proof -
  have f: "fmt sample_world = sample_formats" by (simp add: sample_world_def)
  show ?thesis
    unfolding run_scan_def Let_def f shared_titles_map
    unfolding shared_titles_effects
    by (simp add: sample_world_def nav_signatures_of_def page_screenshots_of_def
        duplicate_titles_def inconsistent_navigation_def majority_signature_def
        set_iteration_def py_max_def)
qed

theorem duplicate_titles_flagged_witness:
  "run_scan sample_world shared_titles_scan ''shots'' =
     Inr ([issue ''Non-unique page title'' ''http://a.test/1''
             ''Each page should have a unique, descriptive title.'' ''Medium'' None,
           issue ''Non-unique page title'' ''http://a.test/2''
             ''Each page should have a unique, descriptive title.'' ''Medium'' None],
          [(''http://a.test/1'', ''screenshot_p0_page.png''),
           (''http://a.test/2'', ''screenshot_p0_page.png''),
           (''http://a.test/3'', ''screenshot_p0_page.png'')]) \<and>
   (''http://a.test/1'', ''Shared title'')
     \<in> set (title_map_of (scan_loop ''shots'' (fmt sample_world) shared_titles_scan)) \<and>
   (''http://a.test/3'', ''Unique title'')
     \<in> set (title_map_of (scan_loop ''shots'' (fmt sample_world) shared_titles_scan)) \<and>
   filter (\<lambda>f. named ''Non-unique page title'' f \<and> page_url f = ''http://a.test/1'')
     [issue ''Non-unique page title'' ''http://a.test/1''
        ''Each page should have a unique, descriptive title.'' ''Medium'' None,
      issue ''Non-unique page title'' ''http://a.test/2''
        ''Each page should have a unique, descriptive title.'' ''Medium'' None] =
     [issue ''Non-unique page title'' ''http://a.test/1''
        ''Each page should have a unique, descriptive title.'' ''Medium'' None] \<and>
   filter (\<lambda>f. named ''Non-unique page title'' f \<and> page_url f = ''http://a.test/3'')
     [issue ''Non-unique page title'' ''http://a.test/1''
        ''Each page should have a unique, descriptive title.'' ''Medium'' None,
      issue ''Non-unique page title'' ''http://a.test/2''
        ''Each page should have a unique, descriptive title.'' ''Medium'' None] = []"
proof -
  have f: "fmt sample_world = sample_formats" by (simp add: sample_world_def)
  have m1: "(''http://a.test/1'', ''Shared title'')
     \<in> set (title_map_of (scan_loop ''shots'' (fmt sample_world) shared_titles_scan))"
    unfolding f shared_titles_map by simp
  have m3: "(''http://a.test/3'', ''Unique title'')
     \<in> set (title_map_of (scan_loop ''shots'' (fmt sample_world) shared_titles_scan))"
    unfolding f shared_titles_map by simp
  have shared: "''Shared title'' \<noteq> [] \<and>
      (\<exists>q. q \<noteq> ''http://a.test/1'' \<and> (q, ''Shared title'')
         \<in> set (title_map_of (scan_loop ''shots'' (fmt sample_world) shared_titles_scan)))"
    unfolding f shared_titles_map by (intro conjI exI [of _ "''http://a.test/2''"]) simp_all
  have unique: "\<not> (''Unique title'' \<noteq> [] \<and>
      (\<exists>q. q \<noteq> ''http://a.test/3'' \<and> (q, ''Unique title'')
         \<in> set (title_map_of (scan_loop ''shots'' (fmt sample_world) shared_titles_scan))))"
    unfolding f shared_titles_map by simp
  show ?thesis
    using duplicate_titles_flagged [OF shared_titles_run m1]
      duplicate_titles_flagged [OF shared_titles_run m3] shared_titles_run m1 m3
    by (simp only: shared unique if_True if_False simp_thms)
qed

lemma untitled_visit:
  "scan_page ''shots'' F link (sample_page (Inr (sample_soup None []))) =
     [Screenshot ''shots/screenshot_p0_page.png'' [], PageShot link ''screenshot_p0_page.png'',
      Screenshot ''shots/screenshot_c1_title.png''
        [\<lparr>r_left = 10, r_top = 10, r_width = 300, r_height = 30, r_label = Some ''Page title''\<rparr>],
      Issue (issue ''Page title not descriptive'' link
               ''Provide a unique, descriptive <title> of at least 5 characters.'' ''High''
               (Some ''screenshot_c1_title.png'')),
      SetTitle link [], SetNav link []]"
  by (simp add: sample_visit_shape untitled_effects nav_signature_def sample_soup_fields)

text \<open>
  Claim C6, as stated, fails for the empty title: two pages without a title element
  share the title string \<^verbatim>\<open>""\<close>, and neither gets a \<^verbatim>\<open>Non-unique page title\<close> finding
  (the code keeps only non-empty titles among the duplicates).
\<close>

theorem shared_empty_title_unflagged:
  "title_map_of (scan_loop ''shots'' (fmt sample_world) untitled_scan) =
     [(''http://a.test/1'', []), (''http://a.test/2'', [])] \<and>
   run_scan sample_world untitled_scan ''shots'' =
     Inr ([issue ''Page title not descriptive'' ''http://a.test/1''
             ''Provide a unique, descriptive <title> of at least 5 characters.'' ''High''
             (Some ''screenshot_c1_title.png''),
           issue ''Page title not descriptive'' ''http://a.test/2''
             ''Provide a unique, descriptive <title> of at least 5 characters.'' ''High''
             (Some ''screenshot_c1_title.png'')],
          [(''http://a.test/1'', ''screenshot_p0_page.png''),
           (''http://a.test/2'', ''screenshot_p0_page.png'')])"
proof -
  have f: "fmt sample_world = sample_formats" by (simp add: sample_world_def)
  have es: "scan_loop ''shots'' sample_formats untitled_scan =
      scan_page ''shots'' sample_formats ''http://a.test/1'' (sample_page (Inr (sample_soup None []))) @
      scan_page ''shots'' sample_formats ''http://a.test/2'' (sample_page (Inr (sample_soup None [])))"
    by (simp add: untitled_scan_def)
  show ?thesis
    unfolding run_scan_def Let_def f es untitled_visit
    by (simp add: sample_world_def title_map_of_def nav_signatures_of_def page_screenshots_of_def
        duplicate_titles_def inconsistent_navigation_def majority_signature_def
        set_iteration_def py_max_def)
qed


lemma py_max_facts:
  "py_max key x xs \<in> set (x # xs) \<and> key x \<le> key (py_max key x xs) \<and>
   (\<forall>y\<in>set xs. key y \<le> key (py_max key x xs))"
proof (induction xs arbitrary: x)
  case Nil
  then show ?case by (simp add: py_max_def)
next
  case (Cons z zs)
  have step: "py_max key x (z # zs) = py_max key (if key x < key z then z else x) zs"
    by (simp add: py_max_def)
  show ?case
  proof (cases "key x < key z")
    case True
    then show ?thesis using Cons [of z] step by (auto intro: order_trans less_imp_le)
  next
    case False
    then have "key z \<le> key x" by simp
    then show ?thesis using Cons [of x] step False by (auto intro: order_trans)
  qed
qed

lemma set_iteration_set: "set (set_iteration pos xs) = set xs"
  by (simp add: set_iteration_def)

lemma majority_facts:
  assumes "sigs \<noteq> []"
  shows "majority_signature pos sigs \<in> set sigs \<and>
         (\<forall>s\<in>set sigs. count_list sigs s \<le> count_list sigs (majority_signature pos sigs))"
proof -
  have "set (set_iteration pos sigs) \<noteq> {}" using assms by (simp add: set_iteration_set)
  then obtain x xs where it: "set_iteration pos sigs = x # xs"
    by (cases "set_iteration pos sigs") auto
  then have all: "set (x # xs) = set sigs" using set_iteration_set [of pos sigs] by simp
  have m: "majority_signature pos sigs = py_max (count_list sigs) x xs"
    by (simp add: majority_signature_def it)
  show ?thesis
    unfolding m using py_max_facts [of "count_list sigs" x xs] all by auto
qed

lemma navigation_per_page:
  assumes "distinct (map fst nm)" and "(page, sig) \<in> set nm"
  shows "filter (\<lambda>f. named ''Inconsistent navigation'' f \<and> page_url f = page)
           (inconsistent_navigation pos nm) =
     (if 1 < length nm \<and> sig \<noteq> [] \<and> majority_signature pos (map snd nm) \<noteq> [] \<and>
         sig \<noteq> majority_signature pos (map snd nm)
      then [issue ''Inconsistent navigation'' page
              ''Use a uniform navigation structure across pages.'' ''Low'' None]
      else [])"
proof (cases "1 < length nm")
  case True
  then have "inconsistent_navigation pos nm =
      concat (map (\<lambda>(p, s). if s \<noteq> [] \<and> majority_signature pos (map snd nm) \<noteq> [] \<and>
                                 s \<noteq> majority_signature pos (map snd nm)
         then [issue ''Inconsistent navigation'' p
                 ''Use a uniform navigation structure across pages.'' ''Low'' None]
         else []) nm)"
    by (simp add: inconsistent_navigation_def Let_def)
  then show ?thesis
    using True per_page_entry [OF assms, of "''Inconsistent navigation''"
        "\<lambda>s. s \<noteq> [] \<and> majority_signature pos (map snd nm) \<noteq> [] \<and>
             s \<noteq> majority_signature pos (map snd nm)"]
    by simp
next
  case False
  then show ?thesis by (simp add: inconsistent_navigation_def)
qed

lemma navigation_unanimous:
  assumes "\<forall>s\<in>snd ` set nm. s = sig"
  shows "inconsistent_navigation pos nm = []"
proof (cases "nm = []")
  case True
  then show ?thesis by (simp add: inconsistent_navigation_def)
next
  case False
  then have "majority_signature pos (map snd nm) \<in> set (map snd nm)"
    using majority_facts [of "map snd nm" pos] by simp
  then have m: "majority_signature pos (map snd nm) = sig" using assms by auto
  have "\<And>p s. (p, s) \<in> set nm \<Longrightarrow> s = sig" using assms by force
  then show ?thesis
    unfolding inconsistent_navigation_def Let_def m by (auto split: prod.splits)
qed

text \<open>
  Claim C3, amended. Let \<open>nm\<close> be the navigation signatures recorded by the scan (one per
  page URL) and \<open>m\<close> the majority computed by the code. Then \<open>m\<close> is one of the recorded
  signatures and none occurs more often (which of several most frequent ones is taken
  follows the iteration order of a Python set, not the order of first appearance). A
  page gets exactly one \<^verbatim>\<open>Low\<close> finding \<^verbatim>\<open>Inconsistent navigation\<close> when more than one page
  was recorded, its signature is not empty, \<open>m\<close> is not empty, and its signature differs
  from \<open>m\<close>; otherwise it gets none. When all pages share one signature (empty or not),
  no such finding is produced at all.
\<close>

theorem navigation_flagged:
  assumes "run_scan w visits dir = Inr (issues, shots)"
    and "nm = nav_signatures_of (scan_loop dir (fmt w) visits)"
    and "m = majority_signature (slot w) (map snd nm)"
    and "(page, sig) \<in> set nm"
  shows "m \<in> snd ` set nm \<and>
         (\<forall>s\<in>snd ` set nm. count_list (map snd nm) s \<le> count_list (map snd nm) m) \<and>
         filter (\<lambda>f. named ''Inconsistent navigation'' f \<and> page_url f = page) issues =
           (if 1 < length nm \<and> sig \<noteq> [] \<and> m \<noteq> [] \<and> sig \<noteq> m
            then [issue ''Inconsistent navigation'' page
                    ''Use a uniform navigation structure across pages.'' ''Low'' None]
            else []) \<and>
         ((\<forall>s\<in>snd ` set nm. s = sig) \<longrightarrow>
            filter (named ''Inconsistent navigation'') issues = [])"
proof -
  let ?es = "scan_loop dir (fmt w) visits"
  have ne: "map snd nm \<noteq> []" using assms(4) by auto
  have maj: "m \<in> snd ` set nm \<and>
      (\<forall>s\<in>snd ` set nm. count_list (map snd nm) s \<le> count_list (map snd nm) m)"
    using majority_facts [OF ne, of "slot w"] assms(3) by simp
  have d: "distinct (map fst nm)" unfolding assms(2) by (rule nav_signatures_distinct)
  have a: "filter (\<lambda>f. named ''Inconsistent navigation'' f \<and> P f) (issues_of ?es) = []" for P
    using scan_loop_not_cross [of _ dir "fmt w" visits] by (intro filter_none) blast
  have b: "filter (\<lambda>f. named ''Inconsistent navigation'' f \<and> P f)
      (duplicate_titles (title_map_of ?es)) = []" for P
    using duplicate_titles_shape [of _ "title_map_of ?es"]
    by (intro filter_none) (auto simp: named_def)
  have iss: "issues = issues_of ?es @ duplicate_titles (title_map_of ?es) @
      inconsistent_navigation (slot w) nm"
    using run_scan_issues [OF assms(1)] assms(2) by simp
  have one: "filter (\<lambda>f. named ''Inconsistent navigation'' f \<and> page_url f = page) issues =
           (if 1 < length nm \<and> sig \<noteq> [] \<and> m \<noteq> [] \<and> sig \<noteq> m
            then [issue ''Inconsistent navigation'' page
                    ''Use a uniform navigation structure across pages.'' ''Low'' None]
            else [])"
    unfolding iss filter_append a b
    using navigation_per_page [OF d assms(4), of "slot w"] assms(3) by simp
  have none: "filter (named ''Inconsistent navigation'') issues = []"
    if "\<forall>s\<in>snd ` set nm. s = sig"
  proof -
    have "filter (\<lambda>f. named ''Inconsistent navigation'' f \<and> True) issues = []"
      unfolding iss filter_append a b navigation_unanimous [OF that] by simp
    then show ?thesis by simp
  qed
  from maj one none show ?thesis by blast
qed


lemma odd_nav_effects:
  "scan_loop ''shots'' sample_formats odd_nav_scan =
     [Screenshot ''shots/screenshot_p0_page.png'' [],
      PageShot ''http://a.test/1'' ''screenshot_p0_page.png'',
      SetTitle ''http://a.test/1'' ''Alpha page'', SetNav ''http://a.test/1'' ''Home|About'',
      Screenshot ''shots/screenshot_p0_page.png'' [],
      PageShot ''http://a.test/2'' ''screenshot_p0_page.png'',
      SetTitle ''http://a.test/2'' ''Beta page'', SetNav ''http://a.test/2'' ''Home|About'',
      Screenshot ''shots/screenshot_p0_page.png'' [],
      PageShot ''http://a.test/3'' ''screenshot_p0_page.png'',
      SetTitle ''http://a.test/3'' ''Gamma page'', SetNav ''http://a.test/3'' ''Home|Blog'']"
  by (simp add: odd_nav_scan_def sample_visit strip_plain sample_signatures)

lemma odd_nav_map:
  "nav_signatures_of (scan_loop ''shots'' sample_formats odd_nav_scan) =
     [(''http://a.test/1'', ''Home|About''), (''http://a.test/2'', ''Home|About''),
      (''http://a.test/3'', ''Home|Blog'')]"
  unfolding odd_nav_effects by (simp add: nav_signatures_of_def)

lemma odd_nav_majority:
  "majority_signature length [''Home|About'', ''Home|About'', ''Home|Blog''] = ''Home|About''"
  by (simp add: majority_signature_def set_iteration_def py_max_def)

lemma sample_world_fields:
  "fmt sample_world = sample_formats" "slot sample_world = length"
  "chrome_raises sample_world = None" "quit_raises sample_world = None"
  by (simp_all add: sample_world_def)

lemma odd_nav_run:
  "run_scan sample_world odd_nav_scan ''shots'' =
     Inr ([issue ''Inconsistent navigation'' ''http://a.test/3''
             ''Use a uniform navigation structure across pages.'' ''Low'' None],
          [(''http://a.test/1'', ''screenshot_p0_page.png''),
           (''http://a.test/2'', ''screenshot_p0_page.png''),
           (''http://a.test/3'', ''screenshot_p0_page.png'')])"
  unfolding run_scan_def Let_def sample_world_fields odd_nav_map
  unfolding odd_nav_effects
  by (simp add: title_map_of_def page_screenshots_of_def duplicate_titles_def
      inconsistent_navigation_def odd_nav_majority)

theorem navigation_flagged_witness:
  "run_scan sample_world odd_nav_scan ''shots'' =
     Inr ([issue ''Inconsistent navigation'' ''http://a.test/3''
             ''Use a uniform navigation structure across pages.'' ''Low'' None],
          [(''http://a.test/1'', ''screenshot_p0_page.png''),
           (''http://a.test/2'', ''screenshot_p0_page.png''),
           (''http://a.test/3'', ''screenshot_p0_page.png'')]) \<and>
   nav_signatures_of (scan_loop ''shots'' (fmt sample_world) odd_nav_scan) =
     [(''http://a.test/1'', ''Home|About''), (''http://a.test/2'', ''Home|About''),
      (''http://a.test/3'', ''Home|Blog'')] \<and>
   majority_signature (slot sample_world)
     (map snd [(''http://a.test/1'', ''Home|About''), (''http://a.test/2'', ''Home|About''),
               (''http://a.test/3'', ''Home|Blog'')]) = ''Home|About'' \<and>
   (''http://a.test/3'', ''Home|Blog'')
     \<in> set [(''http://a.test/1'', ''Home|About''), (''http://a.test/2'', ''Home|About''),
            (''http://a.test/3'', ''Home|Blog'')] \<and>
   filter (\<lambda>f. named ''Inconsistent navigation'' f \<and> page_url f = ''http://a.test/3'')
     [issue ''Inconsistent navigation'' ''http://a.test/3''
        ''Use a uniform navigation structure across pages.'' ''Low'' None] =
     [issue ''Inconsistent navigation'' ''http://a.test/3''
        ''Use a uniform navigation structure across pages.'' ''Low'' None]"
proof -
  have nm: "[(''http://a.test/1'', ''Home|About''), (''http://a.test/2'', ''Home|About''),
      (''http://a.test/3'', ''Home|Blog'')] =
      nav_signatures_of (scan_loop ''shots'' (fmt sample_world) odd_nav_scan)"
    by (simp add: sample_world_fields odd_nav_map)
  have m: "''Home|About'' = majority_signature (slot sample_world)
     (map snd [(''http://a.test/1'', ''Home|About''), (''http://a.test/2'', ''Home|About''),
               (''http://a.test/3'', ''Home|Blog'')])"
    by (simp add: sample_world_fields odd_nav_majority)
  have mem: "(''http://a.test/3'', ''Home|Blog'')
     \<in> set [(''http://a.test/1'', ''Home|About''), (''http://a.test/2'', ''Home|About''),
            (''http://a.test/3'', ''Home|Blog'')]"
    by simp
  have cond: "1 < length [(''http://a.test/1'', ''Home|About''), (''http://a.test/2'', ''Home|About''),
            (''http://a.test/3'', ''Home|Blog'')] \<and> ''Home|Blog'' \<noteq> [] \<and>
      ''Home|About'' \<noteq> [] \<and> ''Home|Blog'' \<noteq> ''Home|About''"
    by simp
  show ?thesis
    using navigation_flagged [OF odd_nav_run nm m mem] odd_nav_run nm [symmetric] m [symmetric] mem
    by (simp only: cond if_True simp_thms)
qed

lemma single_nav_effects:
  "scan_loop ''shots'' sample_formats single_nav_scan =
     [Screenshot ''shots/screenshot_p0_page.png'' [],
      PageShot ''http://a.test/1'' ''screenshot_p0_page.png'',
      SetTitle ''http://a.test/1'' ''Alpha page'', SetNav ''http://a.test/1'' [],
      Screenshot ''shots/screenshot_p0_page.png'' [],
      PageShot ''http://a.test/2'' ''screenshot_p0_page.png'',
      SetTitle ''http://a.test/2'' ''Beta page'', SetNav ''http://a.test/2'' [],
      Screenshot ''shots/screenshot_p0_page.png'' [],
      PageShot ''http://a.test/3'' ''screenshot_p0_page.png'',
      SetTitle ''http://a.test/3'' ''Gamma page'', SetNav ''http://a.test/3'' ''Home|About'']"
  by (simp add: single_nav_scan_def sample_visit strip_plain sample_signatures)

lemma single_nav_majority: "majority_signature length [[], [], ''Home|About''] = []"
  by (simp add: majority_signature_def set_iteration_def py_max_def)

text \<open>
  Claim C3, as stated, fails in two ways. When the empty signature is the most frequent
  one (pages 1 and 2 have no navigation links, page 3 has some), page 3 has a non-empty
  signature that differs from the majority and yet gets no finding. And a tie is not
  broken by first appearance: for the signatures \<^verbatim>\<open>A\<close>, \<^verbatim>\<open>B\<close> in this order, a set that
  iterates \<^verbatim>\<open>B\<close> first makes \<^verbatim>\<open>B\<close> the majority.
\<close>

theorem odd_page_unflagged:
  "nav_signatures_of (scan_loop ''shots'' (fmt sample_world) single_nav_scan) =
     [(''http://a.test/1'', []), (''http://a.test/2'', []), (''http://a.test/3'', ''Home|About'')] \<and>
   majority_signature (slot sample_world) [[], [], ''Home|About''] = [] \<and>
   run_scan sample_world single_nav_scan ''shots'' =
     Inr ([], [(''http://a.test/1'', ''screenshot_p0_page.png''),
               (''http://a.test/2'', ''screenshot_p0_page.png''),
               (''http://a.test/3'', ''screenshot_p0_page.png'')]) \<and>
   majority_signature (\<lambda>s. if s = ''A'' then 1 else 0) [''A'', ''B''] = ''B''"
proof -
  have nm: "nav_signatures_of (scan_loop ''shots'' sample_formats single_nav_scan) =
     [(''http://a.test/1'', []), (''http://a.test/2'', []), (''http://a.test/3'', ''Home|About'')]"
    unfolding single_nav_effects by (simp add: nav_signatures_of_def)
  have run: "run_scan sample_world single_nav_scan ''shots'' =
     Inr ([], [(''http://a.test/1'', ''screenshot_p0_page.png''),
               (''http://a.test/2'', ''screenshot_p0_page.png''),
               (''http://a.test/3'', ''screenshot_p0_page.png'')])"
    unfolding run_scan_def Let_def sample_world_fields nm
    unfolding single_nav_effects
    by (simp add: title_map_of_def page_screenshots_of_def duplicate_titles_def
        inconsistent_navigation_def single_nav_majority)
  have tie: "majority_signature (\<lambda>s. if s = ''A'' then 1 else 0) [''A'', ''B''] = ''B''"
    by (simp add: majority_signature_def set_iteration_def py_max_def)
  show ?thesis
    using nm run tie by (simp add: sample_world_fields single_nav_majority)
qed

end
